theory Spec2Isabelle
  imports Main "HOL-Library.AList"
begin

section \<open>Thread sharing: data model\<close>

text \<open>
  The embedding follows \<^verbatim>\<open>app/internal_packages/thread-sharing/lib/main.tsx\<close>.
  A JavaScript \<^verbatim>\<open>undefined\<close> is \<open>None\<close>; a plain object used as a dictionary is an
  association list in insertion order, read with \<open>map_of\<close> and written with
  \<open>AList.update\<close>.
\<close>

text \<open>A JavaScript number as far as this module needs it: an integer or \<^verbatim>\<open>NaN\<close>.\<close>

datatype number = Num int | NaN

text \<open>An attachment: \<^verbatim>\<open>file.id\<close> and \<^verbatim>\<open>file.displayName()\<close>.\<close>

record attachment =
  file_id :: string
  displayName :: string

text \<open>
  A message: its id, the thread it belongs to, its \<^verbatim>\<open>version\<close> stamp (a counter, so a
  non-negative integer), the result of \<^verbatim>\<open>isHidden()\<close>, its attachments and its body.
\<close>

record message =
  message_id :: string
  threadId :: string
  version :: nat
  isHidden :: bool
  files :: "attachment list"
  body :: string

text \<open>
  The plugin's metadata value on a thread. Every field can be missing: the code starts
  from \<^verbatim>\<open>{}\<close> when the thread carries no metadata yet.
\<close>

record sharing_metadata =
  shared :: "bool option"
  key :: "string option"
  combinedVersionHash :: "string option"
  fileURLs :: "(string \<times> string) list option"

definition empty_metadata :: sharing_metadata where
  "empty_metadata = \<lparr>shared = None, key = None, combinedVersionHash = None, fileURLs = None\<rparr>"

text \<open>
  A thread. \<open>pluginMetadata\<close> is what \<^verbatim>\<open>thread.metadataForPluginId(PLUGIN_ID)\<close> returns
  (\<open>None\<close> when the thread has no metadata for this plugin). Timestamps are seconds.
\<close>

record thread =
  thread_id :: string
  subject :: string
  firstMessageTimestamp :: int
  lastMessageSentTimestamp :: int
  lastMessageReceivedTimestamp :: int
  pluginMetadata :: "sharing_metadata option"

text \<open>
  Modelled from the spec: \<^verbatim>\<open>metadataForPluginId\<close> is a method of the entity store's model
  class, which is not part of this module. The spec describes the metadata as a value the
  engine reads from the entity and changes only by requesting a write through the task
  queue; so reading yields the stored value, and the assignments the code then makes act
  on the value it holds, not on the stored one.
\<close>

definition metadataForPluginId :: "thread \<Rightarrow> sharing_metadata option" where
  "metadataForPluginId t = pluginMetadata t"

section \<open>Strings of numbers\<close>

text \<open>The decimal digits, and the decimal rendering of a non-negative integer.\<close>

definition digit_char :: "nat \<Rightarrow> char" where
  "digit_char d = ''0123456789'' ! d"

fun number_toString :: "nat \<Rightarrow> string" where
  "number_toString n =
     (if n < 10 then [digit_char n]
      else number_toString (n div 10) @ [digit_char (n mod 10)])"

declare number_toString.simps [simp del]

text \<open>
  The value of a decimal digit (its place among the digits), and of a string of them (the
  digits \<^verbatim>\<open>parseInt\<close> reads).
\<close>

definition digit_val :: "char \<Rightarrow> nat" where
  "digit_val c = length (takeWhile (\<lambda>d. d \<noteq> c) ''0123456789'')"

definition of_digits :: "string \<Rightarrow> nat" where
  "of_digits s = foldl (\<lambda>acc c. acc * 10 + digit_val c) 0 s"

text \<open>\<^verbatim>\<open>Array.prototype.join\<close> on an array of strings.\<close>

fun join :: "string \<Rightarrow> string list \<Rightarrow> string" where
  "join sep [] = []"
| "join sep [x] = x"
| "join sep (x # y # ys) = x @ sep @ join sep (y # ys)"

section \<open>The fingerprint\<close>

text \<open>
  \<^verbatim>\<open>messages.map(m => m.version).join('|')\<close>, computed in \<^verbatim>\<open>syncThreadToWeb\<close> over the
  messages that are not hidden.
\<close>

definition visible :: "message list \<Rightarrow> message list" where
  "visible ms = filter (\<lambda>m. \<not> isHidden m) ms"

definition fingerprint :: "message list \<Rightarrow> string" where
  "fingerprint messages = join ''|'' (map (\<lambda>m. number_toString (version m)) messages)"

section \<open>Opening a thread from a link\<close>

text \<open>
  \<^verbatim>\<open>parseInt(s, 10)\<close>: leading white space is skipped, then an optional sign, then the
  longest run of decimal digits; no digit gives \<^verbatim>\<open>NaN\<close>. (White space is the ASCII part
  of what JavaScript skips.)
\<close>

definition is_space :: "char \<Rightarrow> bool" where
  "is_space c \<longleftrightarrow> c \<in> set [CHR '' '', CHR 0x09, CHR 0x0A, CHR 0x0B, CHR 0x0C, CHR 0x0D]"

definition is_digit :: "char \<Rightarrow> bool" where
  "is_digit c \<longleftrightarrow> c \<in> set ''0123456789''"

definition parseInt :: "string \<Rightarrow> number" where
  "parseInt s =
     (let s1 = dropWhile is_space s;
          neg = (s1 \<noteq> [] \<and> hd s1 = CHR ''-'');
          s2 = (if s1 \<noteq> [] \<and> (hd s1 = CHR ''-'' \<or> hd s1 = CHR ''+'') then tl s1 else s1);
          ds = takeWhile is_digit s2
      in if ds = [] then NaN
         else Num (if neg then - int (of_digits ds) else int (of_digits ds)))"

text \<open>
  \<^verbatim>\<open>MailspringLinkParams\<close>. The subject is what the query string held, so it can be
  missing at run time although the interface declares a string.
\<close>

record link_params =
  link_subject :: "string option"
  lastDate :: "number option"
  date :: "number option"

text \<open>
  The fields of \<^verbatim>\<open>querystring.parse(url.parse(mailspringUrlString).query)\<close> that
  \<^verbatim>\<open>_parseOpenThreadUrl\<close> reads; the two library calls are not modelled, a link is
  given by its decoded query fields (each at most once).
\<close>

record query_params =
  param_subject :: "string option"
  param_date :: "string option"
  param_lastDate :: "string option"

text \<open>\<^verbatim>\<open>p ? parseInt(p, 10) : undefined\<close> for a query field: the empty string is falsy.\<close>

definition parse_field :: "string option \<Rightarrow> number option" where
  "parse_field p = (case p of None \<Rightarrow> None | Some s \<Rightarrow> if s \<noteq> [] then Some (parseInt s) else None)"

definition parseOpenThreadUrl :: "query_params \<Rightarrow> link_params" where
  "parseOpenThreadUrl params =
     \<lparr>link_subject = param_subject params,
      lastDate = parse_field (param_lastDate params),
      date = parse_field (param_date params)\<rparr>"

text \<open>
  Modelled from the spec: \<^verbatim>\<open>Matcher\<close>, \<^verbatim>\<open>Thread.attributes\<close> and \<^verbatim>\<open>DatabaseStore.findBy\<close>
  belong to the entity store, which is not part of this module. A matcher is a comparison of
  one attribute with a value, or a conjunction or disjunction of matchers; a comparison
  with \<^verbatim>\<open>NaN\<close> holds of no thread; \<^verbatim>\<open>findBy(Thread).where(ms)\<close> yields the first stored
  thread that satisfies all of \<open>ms\<close>, or nothing.
\<close>

datatype attribute = FirstMessageTimestamp | LastMessageSentTimestamp | LastMessageReceivedTimestamp

datatype matcher =
    LessThan attribute number
  | GreaterThan attribute number
  | SubjectEqual "string option"
  | And "matcher list"
  | Or "matcher list"

fun attribute_value :: "attribute \<Rightarrow> thread \<Rightarrow> int" where
  "attribute_value FirstMessageTimestamp t = firstMessageTimestamp t"
| "attribute_value LastMessageSentTimestamp t = lastMessageSentTimestamp t"
| "attribute_value LastMessageReceivedTimestamp t = lastMessageReceivedTimestamp t"

fun evaluate :: "matcher \<Rightarrow> thread \<Rightarrow> bool" where
  "evaluate (LessThan a v) t = (case v of NaN \<Rightarrow> False | Num x \<Rightarrow> attribute_value a t < x)"
| "evaluate (GreaterThan a v) t = (case v of NaN \<Rightarrow> False | Num x \<Rightarrow> attribute_value a t > x)"
| "evaluate (SubjectEqual s) t = (s = Some (subject t))"
| "evaluate (And ms) t = (\<forall>m \<in> set ms. evaluate m t)"
| "evaluate (Or ms) t = (\<exists>m \<in> set ms. evaluate m t)"

definition findBy_where :: "thread list \<Rightarrow> matcher list \<Rightarrow> thread option" where
  "findBy_where db ms = List.find (evaluate (And ms)) db"

definition DATE_EPSILON :: int where
  "DATE_EPSILON = 60"

text \<open>JavaScript truthiness of an optional number: \<^verbatim>\<open>undefined\<close>, \<^verbatim>\<open>NaN\<close> and 0 are falsy.\<close>

fun truthy :: "number option \<Rightarrow> bool" where
  "truthy None = False"
| "truthy (Some NaN) = False"
| "truthy (Some (Num n)) = (n \<noteq> 0)"

text \<open>\<^verbatim>\<open>x + n\<close> and \<^verbatim>\<open>x - n\<close> for an optional number \<open>x\<close>: \<^verbatim>\<open>undefined\<close> gives \<^verbatim>\<open>NaN\<close>.\<close>

fun plus_number :: "number option \<Rightarrow> int \<Rightarrow> number" where
  "plus_number (Some (Num a)) n = Num (a + n)"
| "plus_number _ n = NaN"

fun minus_number :: "number option \<Rightarrow> int \<Rightarrow> number" where
  "minus_number (Some (Num a)) n = Num (a - n)"
| "minus_number _ n = NaN"

text \<open>The \<^verbatim>\<open>dateClause\<close> of \<^verbatim>\<open>_findCorrespondingThread\<close>.\<close>

definition dateClause :: "link_params \<Rightarrow> int \<Rightarrow> matcher" where
  "dateClause params dateEpsilon =
     (if truthy (date params)
      then And [LessThan FirstMessageTimestamp (plus_number (date params) dateEpsilon),
                GreaterThan FirstMessageTimestamp (minus_number (date params) dateEpsilon)]
      else Or [And [LessThan LastMessageSentTimestamp (plus_number (lastDate params) dateEpsilon),
                    GreaterThan LastMessageSentTimestamp (minus_number (lastDate params) dateEpsilon)],
               And [LessThan LastMessageReceivedTimestamp (plus_number (lastDate params) dateEpsilon),
                    GreaterThan LastMessageReceivedTimestamp (minus_number (lastDate params) dateEpsilon)]])"

text \<open>
  \<^verbatim>\<open>_findCorrespondingThread\<close> over the stored threads \<open>db\<close>; its callers leave
  \<open>dateEpsilon\<close> at the default \<open>DATE_EPSILON\<close>.
\<close>

definition findCorrespondingThread :: "thread list \<Rightarrow> link_params \<Rightarrow> int \<Rightarrow> thread option" where
  "findCorrespondingThread db params dateEpsilon =
     findBy_where db [SubjectEqual (link_subject params), dateClause params dateEpsilon]"

text \<open>
  \<^verbatim>\<open>_onOpenThreadFromWeb\<close>: the thread found is popped out; when none is found the error
  is reported and the dialog names the subject of the link.
\<close>

datatype ui_action = PopoutThread thread | ShowErrorDialog "string option"

definition onOpenThreadFromWeb :: "thread list \<Rightarrow> query_params \<Rightarrow> ui_action" where
  "onOpenThreadFromWeb db mailspringUrl =
     (let params = parseOpenThreadUrl mailspringUrl
      in case findCorrespondingThread db params DATE_EPSILON of
           None \<Rightarrow> ShowErrorDialog (link_subject params)
         | Some thread \<Rightarrow> PopoutThread thread)"

section \<open>Publishing a thread\<close>

text \<open>
  What the module's collaborators answer during one call: \<^verbatim>\<open>Date.now()\<close>,
  \<^verbatim>\<open>AttachmentStore.pathForFile\<close>, the promisified \<^verbatim>\<open>fs.readFile\<close> (\<open>None\<close> when the
  read throws), \<^verbatim>\<open>MailspringAPIRequest.postStaticAsset\<close> (the link, or \<open>None\<close> when the
  request throws), \<^verbatim>\<open>IdentityStore.identity()\<close> and
  \<^verbatim>\<open>QuotedHTMLTransformer.removeQuotedHTML\<close> with \<^verbatim>\<open>keepIfWholeBodyIsQuote\<close>.
\<close>

record account_identity =
  firstName :: string
  lastName :: string
  emailAddress :: string

text \<open>The JSON document of a shared thread, before \<^verbatim>\<open>JSON.stringify\<close>.\<close>

record snapshot =
  snapshot_thread :: thread
  sharedBy :: account_identity
  snapshot_fileURLs :: "(string \<times> string) list"
  snapshot_messages :: "message list"

text \<open>
  The \<^verbatim>\<open>blob\<close> of a request: the bytes of an attachment, the document of a thread, or
  \<^verbatim>\<open>{ shared: false }\<close>.
\<close>

datatype blob = OctetStream "nat list" | SnapshotJSON snapshot | UnsharedJSON

record env =
  now :: nat
  pathForFile :: "attachment \<Rightarrow> string"
  readFile :: "string \<Rightarrow> nat list option"
  postStaticAsset :: "string option \<Rightarrow> blob \<Rightarrow> string option"
  identity :: account_identity
  removeQuotedHTML :: "string \<Rightarrow> string"

text \<open>\<^verbatim>\<open>SyncbackMetadataTask.forSaving({ model, pluginId, value })\<close>, by the id of the model.\<close>

record syncback_metadata_task =
  task_model :: string
  task_value :: sharing_metadata

text \<open>
  What a call leaves behind: the requests made to \<^verbatim>\<open>postStaticAsset\<close>, in order, each
  with its file name, its blob and the link returned (\<open>None\<close> for a failed request), and the
  tasks handed to \<^verbatim>\<open>Actions.queueTask\<close>.
\<close>

record world =
  requests :: "(string option \<times> blob \<times> string option) list"
  queued :: "syncback_metadata_task list"

datatype error = UploadFailed "string option"

text \<open>\<^verbatim>\<open>thread.metadataForPluginId(PLUGIN_ID) || {}\<close>\<close>

definition metadata_or_empty :: "thread \<Rightarrow> sharing_metadata" where
  "metadata_or_empty thread =
     (case metadataForPluginId thread of None \<Rightarrow> empty_metadata | Some metadata \<Rightarrow> metadata)"

text \<open>
  Modelled from the spec: \<^verbatim>\<open>DatabaseStore.findAll(Message, { threadId: thread.id })\<close> is
  the entity store's query for the messages of a thread, here over the stored messages
  \<open>db\<close>.
\<close>

definition findAll :: "message list \<Rightarrow> string \<Rightarrow> message list" where
  "findAll db tid = filter (\<lambda>m. threadId m = tid) db"

text \<open>The messages \<^verbatim>\<open>syncThreadToWeb\<close> works on: those of the thread that are not hidden.\<close>

definition shown_messages :: "message list \<Rightarrow> thread \<Rightarrow> message list" where
  "shown_messages db thread = visible (findAll db (thread_id thread))"

text \<open>
  ``initialize, update the metadata value'': \<^verbatim>\<open>metadata.key || ...\<close> keeps a key that is
  a non-empty string, and \<^verbatim>\<open>metadata.fileURLs || {}\<close> keeps any object.
\<close>

definition init_metadata :: "env \<Rightarrow> thread \<Rightarrow> string \<Rightarrow> sharing_metadata \<Rightarrow> sharing_metadata" where
  "init_metadata e thread hash metadata =
     metadata\<lparr>shared := Some True,
              combinedVersionHash := Some hash,
              key := (case key metadata of
                        Some k \<Rightarrow> if k \<noteq> [] then Some k
                                  else Some (thread_id thread @ ''-'' @ number_toString (now e))
                      | None \<Rightarrow> Some (thread_id thread @ ''-'' @ number_toString (now e))),
              fileURLs := (case fileURLs metadata of Some urls \<Rightarrow> Some urls | None \<Rightarrow> Some [])\<rparr>"

text \<open>\<^verbatim>\<open>files.filter(f => !metadata.fileURLs[f.id])\<close>: a missing or an empty link is falsy.\<close>

definition needs_upload :: "(string \<times> string) list \<Rightarrow> attachment \<Rightarrow> bool" where
  "needs_upload urls f = (case map_of urls (file_id f) of None \<Rightarrow> True | Some link \<Rightarrow> link = [])"

definition toUpload :: "(string \<times> string) list \<Rightarrow> message list \<Rightarrow> attachment list" where
  "toUpload urls messages = filter (needs_upload urls) (concat (map files messages))"

text \<open>
  The body of the upload loop for one file. Whatever is thrown inside (the read fails, the
  file is empty, the request fails) is caught and logged, and the loop goes on.
\<close>

definition upload_file ::
  "env \<Rightarrow> attachment \<Rightarrow> (string \<times> string) list \<times> world \<Rightarrow> (string \<times> string) list \<times> world" where
  "upload_file e f st =
     (let (urls, w) = st; filePath = pathForFile e f
      in case readFile e filePath of
           None \<Rightarrow> (urls, w)
         | Some data \<Rightarrow>
             if length data = 0 then (urls, w)
             else (let filename = Some (file_id f @ ''/'' @ displayName f);
                       blob = OctetStream data
                   in case postStaticAsset e filename blob of
                        None \<Rightarrow> (urls, w\<lparr>requests := requests w @ [(filename, blob, None)]\<rparr>)
                      | Some link \<Rightarrow>
                          (AList.update (file_id f) link urls,
                           w\<lparr>requests := requests w @ [(filename, blob, Some link)]\<rparr>)))"

text \<open>\<^verbatim>\<open>while (toUpload.length) { const file = toUpload.pop(); ... }\<close>\<close>

function upload_loop ::
  "env \<Rightarrow> attachment list \<Rightarrow> (string \<times> string) list \<times> world \<Rightarrow> (string \<times> string) list \<times> world" where
  "upload_loop e fs st =
     (if fs = [] then st else upload_loop e (butlast fs) (upload_file e (last fs) st))"
  by pat_completeness auto
termination
  by (relation "measure (\<lambda>(e, fs, st). length fs)") auto

declare upload_loop.simps [simp del]

text \<open>The document posted for the thread.\<close>

definition build_snapshot :: "env \<Rightarrow> thread \<Rightarrow> (string \<times> string) list \<Rightarrow> message list \<Rightarrow> snapshot" where
  "build_snapshot e thread urls messages =
     \<lparr>snapshot_thread = thread,
      sharedBy = identity e,
      snapshot_fileURLs = urls,
      snapshot_messages = map (\<lambda>m. m\<lparr>body := removeQuotedHTML e (body m)\<rparr>) messages\<rparr>"

text \<open>
  \<^verbatim>\<open>syncThreadToWeb\<close>. It returns normally (\<open>Inr ()\<close>) or rejects with the error of the
  request for the thread's document (\<open>Inl\<close>).
\<close>

definition syncThreadToWeb :: "env \<Rightarrow> message list \<Rightarrow> thread \<Rightarrow> world \<Rightarrow> (error + unit) \<times> world" where
  "syncThreadToWeb e db thread w =
     (let metadata = metadata_or_empty thread;
          messages = shown_messages db thread;
          hash = fingerprint messages
      in if combinedVersionHash metadata = Some hash then (Inr (), w)
         else
           (let metadata1 = init_metadata e thread hash metadata;
                urls = (case fileURLs metadata1 of Some urls \<Rightarrow> urls | None \<Rightarrow> []);
                (urls', w1) = upload_loop e (toUpload urls messages) (urls, w);
                metadata2 = metadata1\<lparr>fileURLs := Some urls'\<rparr>;
                blob = SnapshotJSON (build_snapshot e thread urls' messages)
            in case postStaticAsset e (key metadata2) blob of
                 None \<Rightarrow>
                   (Inl (UploadFailed (key metadata2)),
                    w1\<lparr>requests := requests w1 @ [(key metadata2, blob, None)]\<rparr>)
               | Some link \<Rightarrow>
                   (Inr (),
                    w1\<lparr>requests := requests w1 @ [(key metadata2, blob, Some link)],
                       queued := queued w1 @ [\<lparr>task_model = thread_id thread, task_value = metadata2\<rparr>]\<rparr>)))"

text \<open>\<^verbatim>\<open>unsyncThread\<close>\<close>

definition unsyncThread :: "env \<Rightarrow> thread \<Rightarrow> world \<Rightarrow> (error + unit) \<times> world" where
  "unsyncThread e thread w =
     (let metadata = metadata_or_empty thread
      in case postStaticAsset e (key metadata) UnsharedJSON of
           None \<Rightarrow>
             (Inl (UploadFailed (key metadata)),
              w\<lparr>requests := requests w @ [(key metadata, UnsharedJSON, None)]\<rparr>)
         | Some link \<Rightarrow>
             (Inr (),
              w\<lparr>requests := requests w @ [(key metadata, UnsharedJSON, Some link)],
                 queued := queued w @
                   [\<lparr>task_model = thread_id thread,
                     task_value = \<lparr>shared = Some False, key = key metadata,
                                   combinedVersionHash = None, fileURLs = None\<rparr>\<rparr>]\<rparr>))"

text \<open>\<^verbatim>\<open>isShared\<close>\<close>

definition isShared :: "thread \<Rightarrow> bool" where
  "isShared thread = (shared (metadata_or_empty thread) = Some True)"

text \<open>
  Modelled from the spec: the task queue is a collaborator, which applies a queued
  metadata value to the entity whose id the task carries; a later value replaces an earlier
  one.
\<close>

definition perform_task :: "syncback_metadata_task \<Rightarrow> thread \<Rightarrow> thread" where
  "perform_task task thread =
     (if task_model task = thread_id thread then thread\<lparr>pluginMetadata := Some (task_value task)\<rparr>
      else thread)"

definition perform_tasks :: "syncback_metadata_task list \<Rightarrow> thread \<Rightarrow> thread" where
  "perform_tasks tasks thread = fold perform_task tasks thread"

text \<open>The requests that stored a thread's document.\<close>

fun is_snapshot_write :: "string option \<times> blob \<times> string option \<Rightarrow> bool" where
  "is_snapshot_write (filename, SnapshotJSON doc, Some link) = True"
| "is_snapshot_write _ = False"

definition snapshot_writes :: "world \<Rightarrow> nat" where
  "snapshot_writes w = length (filter is_snapshot_write (requests w))"

text \<open>
  A history of calls on one thread: each call gets the collaborators' answers and the
  stored messages of its moment, and the tasks it queues are performed before the next
  call. The metadata values the engine produced are those of the queued tasks.
\<close>

datatype call = Publish env "message list" | Unpublish env

fun do_call :: "call \<Rightarrow> thread \<Rightarrow> world \<Rightarrow> (error + unit) \<times> world" where
  "do_call (Publish e db) thread w = syncThreadToWeb e db thread w"
| "do_call (Unpublish e) thread w = unsyncThread e thread w"

fun run_calls :: "call list \<Rightarrow> thread \<times> world \<Rightarrow> thread \<times> world" where
  "run_calls [] st = st"
| "run_calls (c # cs) (thread, w) =
     (let w' = snd (do_call c thread w)
      in run_calls cs (perform_tasks (drop (length (queued w)) (queued w')) thread, w'))"

section \<open>Publishing soon\<close>

text \<open>
  The module's \<^verbatim>\<open>soon\<close> and \<^verbatim>\<open>soonTimer\<close>; the timer is held by the time in
  milliseconds at which it fires. \<open>synced\<close> lists the calls of \<^verbatim>\<open>syncThreadToWeb\<close> that
  timer callbacks have made, in order.
\<close>

record scheduler =
  soon :: "(string \<times> thread) list"
  soonTimer :: "nat option"
  synced :: "thread list"

definition idle :: scheduler where
  "idle = \<lparr>soon = [], soonTimer = None, synced = []\<rparr>"

text \<open>\<^verbatim>\<open>syncThreadToWebSoon\<close>, called at time \<open>t\<close>.\<close>

definition syncThreadToWebSoon :: "nat \<Rightarrow> thread \<Rightarrow> scheduler \<Rightarrow> scheduler" where
  "syncThreadToWebSoon t thread s =
     (let s1 = s\<lparr>soon := AList.update (thread_id thread) thread (soon s)\<rparr>
      in case soonTimer s1 of
           None \<Rightarrow> s1\<lparr>soonTimer := Some (t + 5000)\<rparr>
         | Some due \<Rightarrow> s1)"

text \<open>The callback given to \<^verbatim>\<open>setTimeout\<close>.\<close>

definition timer_callback :: "scheduler \<Rightarrow> scheduler" where
  "timer_callback s =
     (let processing = map snd (soon s)
      in s\<lparr>soon := [], soonTimer := None, synced := synced s @ processing\<rparr>)"

text \<open>The event loop reaches time \<open>t\<close>: a timer that is due fires.\<close>

definition advance :: "nat \<Rightarrow> scheduler \<Rightarrow> scheduler" where
  "advance t s =
     (case soonTimer s of
        None \<Rightarrow> s
      | Some due \<Rightarrow> if due \<le> t then timer_callback s else s)"

text \<open>A change of a shared thread is notified at time \<open>t\<close>.\<close>

fun notify :: "nat \<times> thread \<Rightarrow> scheduler \<Rightarrow> scheduler" where
  "notify (t, thread) s = syncThreadToWebSoon t thread (advance t s)"

definition notify_all :: "(nat \<times> thread) list \<Rightarrow> scheduler \<Rightarrow> scheduler" where
  "notify_all ns s = fold notify ns s"

section \<open>What a call of \<^verbatim>\<open>syncThreadToWeb\<close> amounts to\<close>

text \<open>
  Names for the parts of a call, used to state what it does: the link the loop body obtains
  for one file (if any), the request it makes for it (if any), and the same over the whole
  upload list, which the loop takes from the end; the links the thread's metadata already
  holds, the files still to upload, the metadata value and the document a call posts, and
  whether the stored hash equals the current fingerprint.
\<close>

definition uploaded_link :: "env \<Rightarrow> attachment \<Rightarrow> string option" where
  "uploaded_link e f =
     (case readFile e (pathForFile e f) of
        None \<Rightarrow> None
      | Some data \<Rightarrow>
          if length data = 0 then None
          else postStaticAsset e (Some (file_id f @ ''/'' @ displayName f)) (OctetStream data))"

definition upload_request :: "env \<Rightarrow> attachment \<Rightarrow> (string option \<times> blob \<times> string option) list" where
  "upload_request e f =
     (case readFile e (pathForFile e f) of
        None \<Rightarrow> []
      | Some data \<Rightarrow>
          if length data = 0 then []
          else [(Some (file_id f @ ''/'' @ displayName f), OctetStream data,
                 postStaticAsset e (Some (file_id f @ ''/'' @ displayName f)) (OctetStream data))])"

definition upload_requests :: "env \<Rightarrow> attachment list \<Rightarrow> (string option \<times> blob \<times> string option) list" where
  "upload_requests e fs = concat (map (upload_request e) (rev fs))"

definition record_link :: "env \<Rightarrow> attachment \<Rightarrow> (string \<times> string) list \<Rightarrow> (string \<times> string) list" where
  "record_link e f urls =
     (case uploaded_link e f of None \<Rightarrow> urls | Some link \<Rightarrow> AList.update (file_id f) link urls)"

definition record_links :: "env \<Rightarrow> attachment list \<Rightarrow> (string \<times> string) list \<Rightarrow> (string \<times> string) list" where
  "record_links e fs urls = fold (record_link e) (rev fs) urls"

definition known_urls :: "thread \<Rightarrow> (string \<times> string) list" where
  "known_urls thread = (case fileURLs (metadata_or_empty thread) of Some urls \<Rightarrow> urls | None \<Rightarrow> [])"

definition pending_files :: "message list \<Rightarrow> thread \<Rightarrow> attachment list" where
  "pending_files db thread = toUpload (known_urls thread) (shown_messages db thread)"

definition published_metadata :: "env \<Rightarrow> message list \<Rightarrow> thread \<Rightarrow> sharing_metadata" where
  "published_metadata e db thread =
     (init_metadata e thread (fingerprint (shown_messages db thread)) (metadata_or_empty thread))
       \<lparr>fileURLs := Some (record_links e (pending_files db thread) (known_urls thread))\<rparr>"

definition snapshot_blob :: "env \<Rightarrow> message list \<Rightarrow> thread \<Rightarrow> blob" where
  "snapshot_blob e db thread =
     SnapshotJSON (build_snapshot e thread
       (record_links e (pending_files db thread) (known_urls thread)) (shown_messages db thread))"

definition up_to_date :: "message list \<Rightarrow> thread \<Rightarrow> bool" where
  "up_to_date db thread \<longleftrightarrow>
     combinedVersionHash (metadata_or_empty thread) = Some (fingerprint (shown_messages db thread))"

text \<open>
  The metadata value a call queues, if it queues one: \<^verbatim>\<open>{ shared: false, key }\<close> for
  \<^verbatim>\<open>unsyncThread\<close>, the published value for \<^verbatim>\<open>syncThreadToWeb\<close>.
\<close>

definition unshared_metadata :: "thread \<Rightarrow> sharing_metadata" where
  "unshared_metadata thread =
     \<lparr>shared = Some False, key = key (metadata_or_empty thread),
      combinedVersionHash = None, fileURLs = None\<rparr>"

fun call_task :: "call \<Rightarrow> thread \<Rightarrow> sharing_metadata option" where
  "call_task (Publish e db) thread =
     (if up_to_date db thread then None
      else case postStaticAsset e (key (published_metadata e db thread)) (snapshot_blob e db thread) of
             None \<Rightarrow> None
           | Some link \<Rightarrow> Some (published_metadata e db thread))"
| "call_task (Unpublish e) thread =
     (case postStaticAsset e (key (metadata_or_empty thread)) UnsharedJSON of
        None \<Rightarrow> None
      | Some link \<Rightarrow> Some (unshared_metadata thread))"

fun is_publish :: "call \<Rightarrow> bool" where
  "is_publish (Publish e db) = True"
| "is_publish (Unpublish e) = False"

section \<open>Invariants and sample data\<close>

text \<open>
  The pending map holds each thread under its own id, and each id once.
\<close>

definition keyed :: "(string \<times> thread) list \<Rightarrow> bool" where
  "keyed al \<longleftrightarrow> distinct (map fst al) \<and> (\<forall>e\<in>set al. thread_id (snd e) = fst e)"

text \<open>A thread with id t1, told apart by its subject.\<close>

definition ex_thread :: "string \<Rightarrow> thread" where
  "ex_thread s = \<lparr>thread_id = ''t1'', subject = s, firstMessageTimestamp = 1000,
     lastMessageSentTimestamp = 1500, lastMessageReceivedTimestamp = 1600, pluginMetadata = None\<rparr>"

text \<open>
  Sample collaborators: requests that always succeed, requests that fail for every JSON
  document, and an attachment store in which the file f2 is empty; three stored messages of
  the thread t1, the last one hidden.
\<close>

definition ex_post :: "string option \<Rightarrow> blob \<Rightarrow> string option" where
  "ex_post filename blob = Some (''https://cdn/'' @ (case filename of None \<Rightarrow> [] | Some n \<Rightarrow> n))"

definition ex_post_down :: "string option \<Rightarrow> blob \<Rightarrow> string option" where
  "ex_post_down filename blob = (case blob of OctetStream data \<Rightarrow> ex_post filename blob | _ \<Rightarrow> None)"

definition ex_env :: "(string option \<Rightarrow> blob \<Rightarrow> string option) \<Rightarrow> env" where
  "ex_env post =
     \<lparr>now = 1700, pathForFile = (\<lambda>f. ''/files/'' @ file_id f),
      readFile = (\<lambda>path. if path = ''/files/f2'' then Some [] else Some [1, 2, 3]),
      postStaticAsset = post,
      identity = \<lparr>firstName = ''Ada'', lastName = ''Byron'', emailAddress = ''ada@example.org''\<rparr>,
      removeQuotedHTML = (\<lambda>b. b)\<rparr>"

definition ex_file :: "string \<Rightarrow> attachment" where
  "ex_file i = \<lparr>file_id = i, displayName = ''doc.pdf''\<rparr>"

definition ex_db :: "message list" where
  "ex_db =
     [\<lparr>message_id = ''m1'', threadId = ''t1'', version = 3, isHidden = False,
       files = [ex_file ''f1'', ex_file ''f2''], body = ''hello''\<rparr>,
      \<lparr>message_id = ''m2'', threadId = ''t1'', version = 12, isHidden = False,
       files = [ex_file ''f3''], body = ''again''\<rparr>,
      \<lparr>message_id = ''m3'', threadId = ''t1'', version = 7, isHidden = True,
       files = [], body = ''reminder''\<rparr>]"

definition ex_world :: world where
  "ex_world = \<lparr>requests = [], queued = []\<rparr>"

text \<open>
  The sample thread once shared, with one link recorded, and collaborators whose links
  come from another host.
\<close>

definition ex_shared :: thread where
  "ex_shared = (ex_thread ''Hi'')
     \<lparr>pluginMetadata := Some \<lparr>shared = Some True, key = Some ''t1-1700'',
        combinedVersionHash = Some ''3'', fileURLs = Some [(''f1'', ''https://cdn/f1/doc.pdf'')]\<rparr>\<rparr>"

definition ex_post2 :: "string option \<Rightarrow> blob \<Rightarrow> string option" where
  "ex_post2 filename blob = Some (''https://cdn2/'' @ (case filename of None \<Rightarrow> [] | Some n \<Rightarrow> n))"

section \<open>Decimal strings and joins\<close>

lemma digit_char_less10: "d < 10 \<Longrightarrow> digit_char d \<in> set ''0123456789''"
  unfolding digit_char_def by (rule nth_mem) simp

lemma digit_val_digit_char: "d < 10 \<Longrightarrow> digit_val (digit_char d) = d"
proof -
  assume "d < 10"
  then have "d \<in> {0,1,2,3,4,5,6,7,8,9}" by auto
  then show ?thesis by (elim insertE emptyE) (simp_all add: digit_val_def digit_char_def)
qed

lemma of_digits_snoc: "of_digits (s @ [c]) = of_digits s * 10 + digit_val c"
  by (simp add: of_digits_def)

lemma of_digits_number_toString: "of_digits (number_toString n) = n"
proof (induction n rule: number_toString.induct)
  case (1 n)
  show ?case
  proof (cases "n < 10")
    case True
    then show ?thesis
      by (subst number_toString.simps) (simp add: of_digits_def digit_val_digit_char)
  next
    case False
    with 1 have "of_digits (number_toString (n div 10)) = n div 10" by simp
    with False show ?thesis
      by (subst number_toString.simps) (simp add: of_digits_snoc digit_val_digit_char)
  qed
qed

lemma number_toString_inj: "number_toString a = number_toString b \<Longrightarrow> a = b"
  by (metis of_digits_number_toString)

lemma number_toString_chars: "set (number_toString n) \<subseteq> set ''0123456789''"
proof (induction n rule: number_toString.induct)
  case (1 n)
  show ?case
  proof (cases "n < 10")
    case True
    then show ?thesis using digit_char_less10 [of n]
      by (subst number_toString.simps) simp
  next
    case False
    with 1 have "set (number_toString (n div 10)) \<subseteq> set ''0123456789''" by simp
    moreover have "digit_char (n mod 10) \<in> set ''0123456789''"
      by (rule digit_char_less10) simp
    ultimately show ?thesis using False
      by (subst number_toString.simps) simp
  qed
qed

lemma number_toString_nonempty: "number_toString n \<noteq> []"
  by (subst number_toString.simps) simp

lemma number_toString_no_bar: "CHR ''|'' \<notin> set (number_toString n)"
  using number_toString_chars [of n] by auto

lemma join_Cons: "join sep (x # xs) = x @ (if xs = [] then [] else sep @ join sep xs)"
  by (cases xs) simp_all

lemma split_at_sep:
  assumes "c \<notin> set x" and "c \<notin> set y" and "x @ c # r = y @ c # r'"
  shows "x = y \<and> r = r'"
proof -
  have "takeWhile (\<lambda>a. a \<noteq> c) (x @ c # r) = x" "takeWhile (\<lambda>a. a \<noteq> c) (y @ c # r') = y"
    using assms(1,2) by (auto simp: takeWhile_tail)
  with assms(3) have "x = y" by simp
  with assms(3) show ?thesis by simp
qed

lemma join_inj:
  assumes "\<forall>x\<in>set xs. x \<noteq> [] \<and> c \<notin> set x"
    and "\<forall>y\<in>set ys. y \<noteq> [] \<and> c \<notin> set y"
    and "join [c] xs = join [c] ys"
  shows "xs = ys"
  using assms
proof (induction xs arbitrary: ys)
  case Nil
  then show ?case by (cases ys) (simp_all add: join_Cons)
next
  case (Cons x xs)
  show ?case
  proof (cases ys)
    case Nil
    with Cons.prems show ?thesis by (simp add: join_Cons)
  next
    case (Cons y ys')
    have x: "x \<noteq> []" "c \<notin> set x" and y: "y \<noteq> []" "c \<notin> set y"
      using Cons.prems(1,2) Cons by simp_all
    have j: "join [c] (x # xs) = join [c] (y # ys')"
      using Cons.prems(3) Cons by simp
    show ?thesis
    proof (cases "xs = []")
      case True
      note xs = this
      show ?thesis
      proof (cases "ys' = []")
        case True
        with xs j Cons show ?thesis by simp
      next
        case False
        with xs j have "x = y @ c # join [c] ys'" by (simp add: join_Cons)
        with x(2) show ?thesis by simp
      qed
    next
      case False
      note xs = this
      show ?thesis
      proof (cases "ys' = []")
        case True
        with xs j have "y = x @ c # join [c] xs" by (simp add: join_Cons)
        with y(2) show ?thesis by simp
      next
        case False
        with xs j have "x @ c # join [c] xs = y @ c # join [c] ys'" by (simp add: join_Cons)
        from split_at_sep [OF x(2) y(2) this] have "x = y" "join [c] xs = join [c] ys'" by simp_all
        moreover have "xs = ys'"
          using Cons.IH [of ys'] Cons.prems(1,2) Cons \<open>join [c] xs = join [c] ys'\<close> by simp
        ultimately show ?thesis using Cons by simp
      qed
    qed
  qed
qed

lemma fingerprint_eq_iff: "fingerprint A = fingerprint B \<longleftrightarrow> map version A = map version B"
proof
  assume eq: "fingerprint A = fingerprint B"
  let ?f = "\<lambda>m. number_toString (version m)"
  have "map ?f A = map ?f B"
  proof (rule join_inj [where c = "CHR ''|''"])
    show "\<forall>x\<in>set (map ?f A). x \<noteq> [] \<and> CHR ''|'' \<notin> set x"
      by (simp add: number_toString_nonempty number_toString_no_bar)
    show "\<forall>y\<in>set (map ?f B). y \<noteq> [] \<and> CHR ''|'' \<notin> set y"
      by (simp add: number_toString_nonempty number_toString_no_bar)
    show "join ''|'' (map ?f A) = join ''|'' (map ?f B)"
      using eq by (simp add: fingerprint_def)
  qed
  then have "map number_toString (map version A) = map number_toString (map version B)"
    unfolding map_map comp_def .
  moreover have "inj number_toString"
    by (rule injI) (rule number_toString_inj)
  ultimately show "map version A = map version B"
    by (rule map_injective)
next
  assume "map version A = map version B"
  then have "map number_toString (map version A) = map number_toString (map version B)"
    by simp
  then show "fingerprint A = fingerprint B"
    by (simp add: fingerprint_def comp_def)
qed

section \<open>The fingerprint tells versions apart\<close>

text \<open>
  Claim C8. The fingerprint is a function of the version stamps of the messages it is given
  (in \<^verbatim>\<open>syncThreadToWeb\<close>, the messages that are not hidden): two lists with the same
  (id, version) pairs in the same order have the same fingerprint, and changing the version
  stamp of exactly one message of a list changes the fingerprint.
\<close>

theorem fingerprint_sensitivity:
  "(map (\<lambda>m. (message_id m, version m)) A = map (\<lambda>m. (message_id m, version m)) B
      \<longrightarrow> fingerprint A = fingerprint B)
   \<and> (i < length A \<and> v \<noteq> version (A ! i)
      \<longrightarrow> fingerprint (A[i := (A ! i)\<lparr>version := v\<rparr>]) \<noteq> fingerprint A)"
proof (intro conjI impI)
  assume "map (\<lambda>m. (message_id m, version m)) A = map (\<lambda>m. (message_id m, version m)) B"
  then have "map snd (map (\<lambda>m. (message_id m, version m)) A)
           = map snd (map (\<lambda>m. (message_id m, version m)) B)"
    by simp
  then have "map version A = map version B"
    by (simp add: comp_def)
  then show "fingerprint A = fingerprint B"
    by (simp add: fingerprint_eq_iff)
next
  assume h: "i < length A \<and> v \<noteq> version (A ! i)"
  show "fingerprint (A[i := (A ! i)\<lparr>version := v\<rparr>]) \<noteq> fingerprint A"
  proof
    assume "fingerprint (A[i := (A ! i)\<lparr>version := v\<rparr>]) = fingerprint A"
    then have "map version (A[i := (A ! i)\<lparr>version := v\<rparr>]) = map version A"
      by (simp add: fingerprint_eq_iff)
    then have "map version (A[i := (A ! i)\<lparr>version := v\<rparr>]) ! i = map version A ! i"
      by simp
    with h show False by simp
  qed
qed

text \<open>The fingerprint of two messages at versions 3 and 12, and after the second moves to 13.\<close>

theorem fingerprint_sensitivity_witness:
  "fingerprint [\<lparr>message_id = ''m1'', threadId = ''t'', version = 3, isHidden = False, files = [], body = ''a''\<rparr>,
                \<lparr>message_id = ''m2'', threadId = ''t'', version = 12, isHidden = False, files = [], body = ''b''\<rparr>]
     = ''3|12''
   \<and> fingerprint [\<lparr>message_id = ''m1'', threadId = ''t'', version = 3, isHidden = False, files = [], body = ''a''\<rparr>,
                  \<lparr>message_id = ''m2'', threadId = ''t'', version = 13, isHidden = False, files = [], body = ''b''\<rparr>]
     \<noteq> ''3|12''"
  using fingerprint_sensitivity
    [of "[\<lparr>message_id = ''m1'', threadId = ''t'', version = 3, isHidden = False, files = [], body = ''a''\<rparr>,
          \<lparr>message_id = ''m2'', threadId = ''t'', version = 12, isHidden = False, files = [], body = ''b''\<rparr>]"
        "[\<lparr>message_id = ''m1'', threadId = ''t'', version = 3, isHidden = False, files = [], body = ''a''\<rparr>,
          \<lparr>message_id = ''m2'', threadId = ''t'', version = 12, isHidden = False, files = [], body = ''b''\<rparr>]"
        1 13]
  by (simp add: fingerprint_def number_toString.simps digit_char_def)

section \<open>Finding the thread of a link\<close>

lemma evaluate_date_clause:
  assumes "date params = Some (Num d)" and "d \<noteq> 0"
  shows "evaluate (And [SubjectEqual (link_subject params), dateClause params eps]) =
           (\<lambda>t. link_subject params = Some (subject t)
                \<and> d - eps < firstMessageTimestamp t \<and> firstMessageTimestamp t < d + eps)"
  using assms by (auto simp: dateClause_def fun_eq_iff)

lemma evaluate_lastDate_clause:
  assumes "\<not> truthy (date params)" and "lastDate params = Some (Num l)"
  shows "evaluate (And [SubjectEqual (link_subject params), dateClause params eps]) =
           (\<lambda>t. link_subject params = Some (subject t)
                \<and> (l - eps < lastMessageSentTimestamp t \<and> lastMessageSentTimestamp t < l + eps
                   \<or> l - eps < lastMessageReceivedTimestamp t \<and> lastMessageReceivedTimestamp t < l + eps))"
  using assms by (auto simp: dateClause_def fun_eq_iff)

lemma parseInt_zero: "parseInt ''0'' = Num 0"
  by (simp add: parseInt_def is_space_def is_digit_def of_digits_def digit_val_def)

lemma find_never: "(\<And>x. \<not> P x) \<Longrightarrow> List.find P xs = None"
  by (induction xs) simp_all

text \<open>
  Claim C6, as the code has it. With a date clue that is a number other than 0, the thread
  found is the first stored thread whose subject equals the link's subject and whose
  \<^verbatim>\<open>firstMessageTimestamp\<close> lies strictly within 60 seconds of the date: more than
  \<open>date - 60\<close> and less than \<open>date + 60\<close>. A thread with first message at 1000 is found
  for the date 1030, and not for the dates 1200, 1060 and 940: a thread exactly 60 seconds
  from the date is not matched.
\<close>

theorem resolver_exact_date:
  assumes "date params = Some (Num d)" and "d \<noteq> 0"
  shows "findCorrespondingThread db params DATE_EPSILON =
           List.find (\<lambda>t. link_subject params = Some (subject t)
                          \<and> d - 60 < firstMessageTimestamp t \<and> firstMessageTimestamp t < d + 60) db
       \<and> (subject t = ''Hi'' \<and> firstMessageTimestamp t = 1000 \<longrightarrow>
            findCorrespondingThread [t] \<lparr>link_subject = Some ''Hi'', lastDate = ld, date = Some (Num 1030)\<rparr>
              DATE_EPSILON = Some t
          \<and> findCorrespondingThread [t] \<lparr>link_subject = Some ''Hi'', lastDate = ld, date = Some (Num 1200)\<rparr>
              DATE_EPSILON = None
          \<and> findCorrespondingThread [t] \<lparr>link_subject = Some ''Hi'', lastDate = ld, date = Some (Num 1060)\<rparr>
              DATE_EPSILON = None
          \<and> findCorrespondingThread [t] \<lparr>link_subject = Some ''Hi'', lastDate = ld, date = Some (Num 940)\<rparr>
              DATE_EPSILON = None)"
proof (intro conjI impI)
  show "findCorrespondingThread db params DATE_EPSILON =
           List.find (\<lambda>t. link_subject params = Some (subject t)
                          \<and> d - 60 < firstMessageTimestamp t \<and> firstMessageTimestamp t < d + 60) db"
    unfolding findCorrespondingThread_def findBy_where_def
    by (simp only: evaluate_date_clause [OF assms] DATE_EPSILON_def)
next
  assume t: "subject t = ''Hi'' \<and> firstMessageTimestamp t = 1000"
  show "findCorrespondingThread [t] \<lparr>link_subject = Some ''Hi'', lastDate = ld, date = Some (Num 1030)\<rparr>
          DATE_EPSILON = Some t"
    using t by (simp add: findCorrespondingThread_def findBy_where_def dateClause_def DATE_EPSILON_def)
  show "findCorrespondingThread [t] \<lparr>link_subject = Some ''Hi'', lastDate = ld, date = Some (Num 1200)\<rparr>
          DATE_EPSILON = None"
    using t by (simp add: findCorrespondingThread_def findBy_where_def dateClause_def DATE_EPSILON_def)
  show "findCorrespondingThread [t] \<lparr>link_subject = Some ''Hi'', lastDate = ld, date = Some (Num 1060)\<rparr>
          DATE_EPSILON = None"
    using t by (simp add: findCorrespondingThread_def findBy_where_def dateClause_def DATE_EPSILON_def)
  show "findCorrespondingThread [t] \<lparr>link_subject = Some ''Hi'', lastDate = ld, date = Some (Num 940)\<rparr>
          DATE_EPSILON = None"
    using t by (simp add: findCorrespondingThread_def findBy_where_def dateClause_def DATE_EPSILON_def)
qed

text \<open>A store holding one thread with subject Hi and first message at 1000.\<close>

theorem resolver_exact_date_witness:
  "findCorrespondingThread
     [\<lparr>thread_id = ''t1'', subject = ''Hi'', firstMessageTimestamp = 1000,
       lastMessageSentTimestamp = 1500, lastMessageReceivedTimestamp = 1600, pluginMetadata = None\<rparr>]
     \<lparr>link_subject = Some ''Hi'', lastDate = None, date = Some (Num 1030)\<rparr> DATE_EPSILON
   = Some \<lparr>thread_id = ''t1'', subject = ''Hi'', firstMessageTimestamp = 1000,
       lastMessageSentTimestamp = 1500, lastMessageReceivedTimestamp = 1600, pluginMetadata = None\<rparr>
   \<and> findCorrespondingThread
     [\<lparr>thread_id = ''t1'', subject = ''Hi'', firstMessageTimestamp = 1000,
       lastMessageSentTimestamp = 1500, lastMessageReceivedTimestamp = 1600, pluginMetadata = None\<rparr>]
     \<lparr>link_subject = Some ''Hi'', lastDate = None, date = Some (Num 1200)\<rparr> DATE_EPSILON
   = None"
  using resolver_exact_date
    [of "\<lparr>link_subject = Some ''Hi'', lastDate = None, date = Some (Num 1030)\<rparr>" 1030
        "[\<lparr>thread_id = ''t1'', subject = ''Hi'', firstMessageTimestamp = 1000,
           lastMessageSentTimestamp = 1500, lastMessageReceivedTimestamp = 1600, pluginMetadata = None\<rparr>]"
        "\<lparr>thread_id = ''t1'', subject = ''Hi'', firstMessageTimestamp = 1000,
           lastMessageSentTimestamp = 1500, lastMessageReceivedTimestamp = 1600, pluginMetadata = None\<rparr>"
        None]
  by simp

text \<open>
  The claim as stated fails at the edge of the band and at the date 0. A thread with
  subject Hi and first message at 1000 is exactly 60 seconds from the date 1060 and is not
  found. A thread with subject Hi and first message at 30 is within 60 seconds of the date
  0, which is present in the link, and is not found either: the date 0 is falsy, the clause
  is built from the missing \<^verbatim>\<open>lastDate\<close>.
\<close>

theorem resolver_exact_date_counterexample:
  "findCorrespondingThread
     [\<lparr>thread_id = ''t1'', subject = ''Hi'', firstMessageTimestamp = 1000,
       lastMessageSentTimestamp = 1500, lastMessageReceivedTimestamp = 1600, pluginMetadata = None\<rparr>]
     \<lparr>link_subject = Some ''Hi'', lastDate = None, date = Some (Num 1060)\<rparr> DATE_EPSILON
   = None
   \<and> \<bar>(1000::int) - 1060\<bar> = 60
   \<and> findCorrespondingThread
     [\<lparr>thread_id = ''t3'', subject = ''Hi'', firstMessageTimestamp = 30,
       lastMessageSentTimestamp = 5000, lastMessageReceivedTimestamp = 5000, pluginMetadata = None\<rparr>]
     \<lparr>link_subject = Some ''Hi'', lastDate = None, date = Some (Num 0)\<rparr> DATE_EPSILON
   = None"
  by (simp add: findCorrespondingThread_def findBy_where_def dateClause_def DATE_EPSILON_def)

text \<open>
  Claim C7, as the code has it. With only a \<^verbatim>\<open>lastDate\<close> clue (no truthy \<^verbatim>\<open>date\<close>), the
  thread found is the first stored thread whose subject equals the link's subject and whose
  \<^verbatim>\<open>lastMessageSentTimestamp\<close> or \<^verbatim>\<open>lastMessageReceivedTimestamp\<close> lies strictly within 60
  seconds of \<^verbatim>\<open>lastDate\<close>: more than \<open>lastDate - 60\<close> and less than \<open>lastDate + 60\<close>. A
  thread last sent at 500 and last received at 2000 is found for 520 and for 1980, and not
  for 560 and 1940: a time exactly 60 seconds from \<^verbatim>\<open>lastDate\<close> does not match.
\<close>

theorem resolver_either_timestamp:
  assumes "\<not> truthy (date params)" and "lastDate params = Some (Num l)"
  shows "findCorrespondingThread db params DATE_EPSILON =
           List.find (\<lambda>t. link_subject params = Some (subject t)
                          \<and> (l - 60 < lastMessageSentTimestamp t \<and> lastMessageSentTimestamp t < l + 60
                             \<or> l - 60 < lastMessageReceivedTimestamp t
                               \<and> lastMessageReceivedTimestamp t < l + 60)) db
       \<and> (subject t = ''X'' \<and> lastMessageSentTimestamp t = 500 \<and> lastMessageReceivedTimestamp t = 2000 \<longrightarrow>
            findCorrespondingThread [t] \<lparr>link_subject = Some ''X'', lastDate = Some (Num 520), date = None\<rparr>
              DATE_EPSILON = Some t
          \<and> findCorrespondingThread [t] \<lparr>link_subject = Some ''X'', lastDate = Some (Num 1980), date = None\<rparr>
              DATE_EPSILON = Some t
          \<and> findCorrespondingThread [t] \<lparr>link_subject = Some ''X'', lastDate = Some (Num 560), date = None\<rparr>
              DATE_EPSILON = None
          \<and> findCorrespondingThread [t] \<lparr>link_subject = Some ''X'', lastDate = Some (Num 1940), date = None\<rparr>
              DATE_EPSILON = None)"
proof (intro conjI impI)
  show "findCorrespondingThread db params DATE_EPSILON =
           List.find (\<lambda>t. link_subject params = Some (subject t)
                          \<and> (l - 60 < lastMessageSentTimestamp t \<and> lastMessageSentTimestamp t < l + 60
                             \<or> l - 60 < lastMessageReceivedTimestamp t
                               \<and> lastMessageReceivedTimestamp t < l + 60)) db"
    unfolding findCorrespondingThread_def findBy_where_def
    by (simp only: evaluate_lastDate_clause [OF assms] DATE_EPSILON_def)
next
  assume t: "subject t = ''X'' \<and> lastMessageSentTimestamp t = 500 \<and> lastMessageReceivedTimestamp t = 2000"
  show "findCorrespondingThread [t] \<lparr>link_subject = Some ''X'', lastDate = Some (Num 520), date = None\<rparr>
          DATE_EPSILON = Some t"
    using t by (simp add: findCorrespondingThread_def findBy_where_def dateClause_def DATE_EPSILON_def)
  show "findCorrespondingThread [t] \<lparr>link_subject = Some ''X'', lastDate = Some (Num 1980), date = None\<rparr>
          DATE_EPSILON = Some t"
    using t by (simp add: findCorrespondingThread_def findBy_where_def dateClause_def DATE_EPSILON_def)
  show "findCorrespondingThread [t] \<lparr>link_subject = Some ''X'', lastDate = Some (Num 560), date = None\<rparr>
          DATE_EPSILON = None"
    using t by (simp add: findCorrespondingThread_def findBy_where_def dateClause_def DATE_EPSILON_def)
  show "findCorrespondingThread [t] \<lparr>link_subject = Some ''X'', lastDate = Some (Num 1940), date = None\<rparr>
          DATE_EPSILON = None"
    using t by (simp add: findCorrespondingThread_def findBy_where_def dateClause_def DATE_EPSILON_def)
qed

text \<open>A store holding one thread with subject X, last sent at 500 and last received at 2000.\<close>

theorem resolver_either_timestamp_witness:
  "findCorrespondingThread
     [\<lparr>thread_id = ''t2'', subject = ''X'', firstMessageTimestamp = 100,
       lastMessageSentTimestamp = 500, lastMessageReceivedTimestamp = 2000, pluginMetadata = None\<rparr>]
     \<lparr>link_subject = Some ''X'', lastDate = Some (Num 520), date = None\<rparr> DATE_EPSILON
   = Some \<lparr>thread_id = ''t2'', subject = ''X'', firstMessageTimestamp = 100,
       lastMessageSentTimestamp = 500, lastMessageReceivedTimestamp = 2000, pluginMetadata = None\<rparr>
   \<and> findCorrespondingThread
     [\<lparr>thread_id = ''t2'', subject = ''X'', firstMessageTimestamp = 100,
       lastMessageSentTimestamp = 500, lastMessageReceivedTimestamp = 2000, pluginMetadata = None\<rparr>]
     \<lparr>link_subject = Some ''X'', lastDate = Some (Num 1980), date = None\<rparr> DATE_EPSILON
   = Some \<lparr>thread_id = ''t2'', subject = ''X'', firstMessageTimestamp = 100,
       lastMessageSentTimestamp = 500, lastMessageReceivedTimestamp = 2000, pluginMetadata = None\<rparr>"
  using resolver_either_timestamp
    [of "\<lparr>link_subject = Some ''X'', lastDate = Some (Num 520), date = None\<rparr>" 520
        "[\<lparr>thread_id = ''t2'', subject = ''X'', firstMessageTimestamp = 100,
           lastMessageSentTimestamp = 500, lastMessageReceivedTimestamp = 2000, pluginMetadata = None\<rparr>]"
        "\<lparr>thread_id = ''t2'', subject = ''X'', firstMessageTimestamp = 100,
           lastMessageSentTimestamp = 500, lastMessageReceivedTimestamp = 2000, pluginMetadata = None\<rparr>"]
  by simp

text \<open>
  The claim as stated fails at the edge of the band. A thread with subject X, last sent at
  500 and last received at 2000, is not found for \<^verbatim>\<open>lastDate\<close> 560, exactly 60 seconds
  after its sent time, nor for 1940, exactly 60 seconds before its received time.
\<close>

theorem resolver_either_timestamp_counterexample:
  "findCorrespondingThread
     [\<lparr>thread_id = ''t2'', subject = ''X'', firstMessageTimestamp = 100,
       lastMessageSentTimestamp = 500, lastMessageReceivedTimestamp = 2000, pluginMetadata = None\<rparr>]
     \<lparr>link_subject = Some ''X'', lastDate = Some (Num 560), date = None\<rparr> DATE_EPSILON
   = None
   \<and> \<bar>(500::int) - 560\<bar> = 60
   \<and> findCorrespondingThread
     [\<lparr>thread_id = ''t2'', subject = ''X'', firstMessageTimestamp = 100,
       lastMessageSentTimestamp = 500, lastMessageReceivedTimestamp = 2000, pluginMetadata = None\<rparr>]
     \<lparr>link_subject = Some ''X'', lastDate = Some (Num 1940), date = None\<rparr> DATE_EPSILON
   = None
   \<and> \<bar>(2000::int) - 1940\<bar> = 60"
  by (simp add: findCorrespondingThread_def findBy_where_def dateClause_def DATE_EPSILON_def)

text \<open>
  Claim C10. A \<^verbatim>\<open>date\<close> that is present but 0 is falsy, so the clause is the one built
  from \<^verbatim>\<open>lastDate\<close>; with no \<^verbatim>\<open>lastDate\<close> either, its bounds are \<^verbatim>\<open>NaN\<close>, no thread
  satisfies it, and opening the link ends in the error dialog. The query field
  \<^verbatim>\<open>date=0\<close> parses to such a date.
\<close>

theorem resolver_date_zero:
  assumes "date params = Some (Num 0)"
  shows "dateClause params eps =
           Or [And [LessThan LastMessageSentTimestamp (plus_number (lastDate params) eps),
                    GreaterThan LastMessageSentTimestamp (minus_number (lastDate params) eps)],
               And [LessThan LastMessageReceivedTimestamp (plus_number (lastDate params) eps),
                    GreaterThan LastMessageReceivedTimestamp (minus_number (lastDate params) eps)]]
       \<and> (lastDate params = None \<longrightarrow> findCorrespondingThread db params eps = None)
       \<and> (param_date q = Some ''0'' \<longrightarrow> date (parseOpenThreadUrl q) = Some (Num 0))
       \<and> (param_date q = Some ''0'' \<and> param_lastDate q = None \<longrightarrow>
            onOpenThreadFromWeb db q = ShowErrorDialog (param_subject q))"
proof (intro conjI impI)
  show "dateClause params eps =
           Or [And [LessThan LastMessageSentTimestamp (plus_number (lastDate params) eps),
                    GreaterThan LastMessageSentTimestamp (minus_number (lastDate params) eps)],
               And [LessThan LastMessageReceivedTimestamp (plus_number (lastDate params) eps),
                    GreaterThan LastMessageReceivedTimestamp (minus_number (lastDate params) eps)]]"
    using assms by (simp add: dateClause_def)
next
  assume "lastDate params = None"
  with assms have "\<And>t. \<not> evaluate (And [SubjectEqual (link_subject params), dateClause params eps]) t"
    by (simp add: dateClause_def)
  then show "findCorrespondingThread db params eps = None"
    unfolding findCorrespondingThread_def findBy_where_def by (rule find_never)
next
  assume "param_date q = Some ''0''"
  then show "date (parseOpenThreadUrl q) = Some (Num 0)"
    by (simp add: parseOpenThreadUrl_def parse_field_def parseInt_zero)
next
  assume q: "param_date q = Some ''0'' \<and> param_lastDate q = None"
  then have d: "date (parseOpenThreadUrl q) = Some (Num 0)" and l: "lastDate (parseOpenThreadUrl q) = None"
    by (simp_all add: parseOpenThreadUrl_def parse_field_def parseInt_zero)
  have "\<And>t. \<not> evaluate (And [SubjectEqual (link_subject (parseOpenThreadUrl q)),
                              dateClause (parseOpenThreadUrl q) DATE_EPSILON]) t"
    using d l by (simp add: dateClause_def)
  then have "findCorrespondingThread db (parseOpenThreadUrl q) DATE_EPSILON = None"
    unfolding findCorrespondingThread_def findBy_where_def by (rule find_never)
  then show "onOpenThreadFromWeb db q = ShowErrorDialog (param_subject q)"
    by (simp add: onOpenThreadFromWeb_def parseOpenThreadUrl_def)
qed

text \<open>The link \<^verbatim>\<open>subject=Hi&date=0\<close> against a thread whose three timestamps are 0.\<close>

theorem resolver_date_zero_witness:
  "date (parseOpenThreadUrl \<lparr>param_subject = Some ''Hi'', param_date = Some ''0'', param_lastDate = None\<rparr>)
     = Some (Num 0)
   \<and> onOpenThreadFromWeb
       [\<lparr>thread_id = ''t0'', subject = ''Hi'', firstMessageTimestamp = 0,
         lastMessageSentTimestamp = 0, lastMessageReceivedTimestamp = 0, pluginMetadata = None\<rparr>]
       \<lparr>param_subject = Some ''Hi'', param_date = Some ''0'', param_lastDate = None\<rparr>
     = ShowErrorDialog (Some ''Hi'')
   \<and> findCorrespondingThread
       [\<lparr>thread_id = ''t0'', subject = ''Hi'', firstMessageTimestamp = 0,
         lastMessageSentTimestamp = 0, lastMessageReceivedTimestamp = 0, pluginMetadata = None\<rparr>]
       \<lparr>link_subject = Some ''Hi'', lastDate = None, date = Some (Num 0)\<rparr> DATE_EPSILON
     = None"
  using resolver_date_zero
    [of "\<lparr>link_subject = Some ''Hi'', lastDate = None, date = Some (Num 0)\<rparr>" DATE_EPSILON
        "[\<lparr>thread_id = ''t0'', subject = ''Hi'', firstMessageTimestamp = 0,
           lastMessageSentTimestamp = 0, lastMessageReceivedTimestamp = 0, pluginMetadata = None\<rparr>]"
        "\<lparr>param_subject = Some ''Hi'', param_date = Some ''0'', param_lastDate = None\<rparr>"]
  by simp

section \<open>Changes within one window are published once\<close>

lemma notify_in_window:
  assumes "soonTimer s = Some due" and "t < due"
  shows "notify (t, th) s = s\<lparr>soon := AList.update (thread_id th) th (soon s)\<rparr>"
  using assms by (simp add: advance_def syncThreadToWebSoon_def)

lemma notify_all_in_window:
  assumes "soonTimer s = Some due" and "\<forall>n\<in>set ns. fst n < due"
  shows "notify_all ns s =
           s\<lparr>soon := fold (\<lambda>n. AList.update (thread_id (snd n)) (snd n)) ns (soon s)\<rparr>"
  using assms
proof (induction ns arbitrary: s)
  case Nil
  then show ?case by (simp add: notify_all_def)
next
  case (Cons n ns)
  obtain t th where n: "n = (t, th)" by (cases n)
  let ?s1 = "s\<lparr>soon := AList.update (thread_id th) th (soon s)\<rparr>"
  have step: "notify n s = ?s1"
    using Cons.prems n by (simp add: notify_in_window del: notify.simps)
  have "notify_all ns ?s1 =
          ?s1\<lparr>soon := fold (\<lambda>n. AList.update (thread_id (snd n)) (snd n)) ns (soon ?s1)\<rparr>"
    using Cons.prems by (intro Cons.IH) simp_all
  then show ?case
    using step n by (simp add: notify_all_def del: notify.simps)
qed

lemma notify_first:
  assumes "soon s = []" and "soonTimer s = None"
  shows "notify (t, th) s = s\<lparr>soon := [(thread_id th, th)], soonTimer := Some (t + 5000)\<rparr>"
  using assms by (simp add: advance_def syncThreadToWebSoon_def)

lemma map_of_fold_update:
  "map_of (fold (\<lambda>n. AList.update (thread_id (snd n)) (snd n)) ns al) i =
     (case filter (\<lambda>n. thread_id (snd n) = i) ns of
        [] \<Rightarrow> map_of al i
      | n # ms \<Rightarrow> Some (snd (last (n # ms))))"
proof (induction ns arbitrary: al)
  case Nil
  show ?case by simp
next
  case (Cons n ns)
  show ?case
  proof (cases "filter (\<lambda>n. thread_id (snd n) = i) ns")
    case Nil
    then show ?thesis
      using Cons.IH [of "AList.update (thread_id (snd n)) (snd n) al"]
      by (cases "thread_id (snd n) = i") (simp_all add: update_conv)
  next
    case (Cons m ms)
    then show ?thesis
      using Cons.IH [of "AList.update (thread_id (snd n)) (snd n) al"]
      by simp
  qed
qed

lemma keyed_update: "keyed al \<Longrightarrow> keyed (AList.update (thread_id th) th al)"
proof (induction al)
  case Nil
  then show ?case by (simp add: keyed_def)
next
  case (Cons e al)
  then have "keyed al" by (simp add: keyed_def)
  with Cons.IH have IH: "keyed (AList.update (thread_id th) th al)" .
  obtain k v where e: "e = (k, v)" by (cases e)
  show ?case
  proof (cases "k = thread_id th")
    case True
    with Cons.prems e show ?thesis by (simp add: keyed_def)
  next
    case False
    with Cons.prems e IH show ?thesis
      by (auto simp: keyed_def dom_update)
  qed
qed

lemma keyed_fold: "keyed al \<Longrightarrow> keyed (fold (\<lambda>n. AList.update (thread_id (snd n)) (snd n)) ns al)"
  by (induction ns arbitrary: al) (simp_all add: keyed_update)

lemma keyed_filter:
  assumes "keyed al"
  shows "filter (\<lambda>th. thread_id th = i) (map snd al) =
           (case map_of al i of None \<Rightarrow> [] | Some th \<Rightarrow> [th])"
  using assms
proof (induction al)
  case Nil
  show ?case by simp
next
  case (Cons e al)
  obtain k v where e: "e = (k, v)" by (cases e)
  from Cons.prems e have kv: "thread_id v = k" and k: "k \<notin> fst ` set al" and al: "keyed al"
    by (auto simp: keyed_def)
  note IH = Cons.IH [OF al]
  show ?case
  proof (cases "k = i")
    case True
    with k have "map_of al i = None" by (simp add: map_of_eq_None_iff)
    with IH True kv e show ?thesis by simp
  next
    case False
    with IH kv e show ?thesis by simp
  qed
qed

lemma fold_update_same_id:
  assumes "\<forall>n\<in>set ns. thread_id (snd n) = k"
  shows "fold (\<lambda>n. AList.update (thread_id (snd n)) (snd n)) ns [(k, v)] =
           [(k, snd (last ((t, v) # ns)))]"
  using assms by (induction ns arbitrary: v) simp_all

text \<open>
  Claim C5. From a scheduler with nothing pending and no timer, a change notified at time
  \<open>ts\<close> starts the timer for \<open>ts + 5000\<close>. Whatever changes are notified before that
  time, nothing is published before the timer fires; when it fires, each thread notified
  in the window is published exactly once, in the state of its last notification (so with
  all notifications for one thread, the flush is the single call for the last state); the
  pending map and the timer are cleared, and the next notification starts a new timer.
\<close>

theorem debounce_coalescing:
  assumes "soon s = []" and "soonTimer s = None"
    and "\<forall>n\<in>set ns. fst n < ts + 5000"
    and "ts + 5000 \<le> T"
    and "sw = notify_all ((ts, th) # ns) s"
  shows "synced sw = synced s \<and> soonTimer sw = Some (ts + 5000)
       \<and> (Te < ts + 5000 \<longrightarrow> advance Te sw = sw)
       \<and> synced (advance T sw) = synced s @ map snd (soon sw)
       \<and> filter (\<lambda>th. thread_id th = i) (map snd (soon sw)) =
           (case filter (\<lambda>n. thread_id (snd n) = i) ((ts, th) # ns) of
              [] \<Rightarrow> []
            | n # ms \<Rightarrow> [snd (last (n # ms))])
       \<and> ((\<forall>n\<in>set ns. thread_id (snd n) = thread_id th) \<longrightarrow>
            synced (advance T sw) = synced s @ [snd (last ((ts, th) # ns))])
       \<and> soon (advance T sw) = [] \<and> soonTimer (advance T sw) = None
       \<and> soonTimer (notify (Tn, thn) (advance T sw)) = Some (Tn + 5000)"
proof -
  let ?upd = "\<lambda>n. AList.update (thread_id (snd n)) (snd n)"
  let ?s0 = "s\<lparr>soon := [(thread_id th, th)], soonTimer := Some (ts + 5000)\<rparr>"
  have first: "notify (ts, th) s = ?s0"
    using assms(1,2) by (rule notify_first)
  have "notify_all ns ?s0 = ?s0\<lparr>soon := fold ?upd ns (soon ?s0)\<rparr>"
    using assms(3) by (intro notify_all_in_window [where due = "ts + 5000"]) simp_all
  with first have sw: "sw = s\<lparr>soon := fold ?upd ns [(thread_id th, th)], soonTimer := Some (ts + 5000)\<rparr>"
    using assms(5) by (simp add: notify_all_def del: notify.simps)
  have soon1: "soon sw = fold ?upd ((ts, th) # ns) []"
    using sw by simp
  have a: "synced sw = synced s" "soonTimer sw = Some (ts + 5000)"
    using sw by simp_all
  have b: "Te < ts + 5000 \<longrightarrow> advance Te sw = sw"
    using a by (simp add: advance_def)
  have fire: "advance T sw = timer_callback sw"
    using a assms(4) by (simp add: advance_def)
  have c: "synced (advance T sw) = synced s @ map snd (soon sw)"
    using fire a by (simp add: timer_callback_def)
  have k: "keyed (soon sw)"
    unfolding soon1 by (rule keyed_fold) (simp add: keyed_def)
  have m: "map_of (soon sw) i =
             (case filter (\<lambda>n. thread_id (snd n) = i) ((ts, th) # ns) of
                [] \<Rightarrow> map_of [] i
              | n # ms \<Rightarrow> Some (snd (last (n # ms))))"
    unfolding soon1 by (rule map_of_fold_update)
  have d: "filter (\<lambda>th. thread_id th = i) (map snd (soon sw)) =
           (case filter (\<lambda>n. thread_id (snd n) = i) ((ts, th) # ns) of
              [] \<Rightarrow> []
            | n # ms \<Rightarrow> [snd (last (n # ms))])"
    unfolding keyed_filter [OF k] m by (simp split: list.splits)
  have e: "(\<forall>n\<in>set ns. thread_id (snd n) = thread_id th) \<longrightarrow>
            synced (advance T sw) = synced s @ [snd (last ((ts, th) # ns))]"
  proof
    assume "\<forall>n\<in>set ns. thread_id (snd n) = thread_id th"
    then have "soon sw = [(thread_id th, snd (last ((ts, th) # ns)))]"
      using sw fold_update_same_id [of ns "thread_id th" th ts] by simp
    with c show "synced (advance T sw) = synced s @ [snd (last ((ts, th) # ns))]"
      by simp
  qed
  have f: "soon (advance T sw) = []" "soonTimer (advance T sw) = None"
    using fire by (simp_all add: timer_callback_def)
  have g: "soonTimer (notify (Tn, thn) (advance T sw)) = Some (Tn + 5000)"
    using f by (simp add: notify_first del: notify.simps)
  from a b c d e f g show ?thesis by simp
qed

text \<open>Three changes of one thread at 0, 100 and 900 ms: nothing at 4999 ms, one call at 5000 ms.\<close>

theorem debounce_coalescing_witness:
  "synced (advance 5000 (notify_all [(0, ex_thread ''a''), (100, ex_thread ''b''), (900, ex_thread ''c'')] idle))
     = [ex_thread ''c'']
   \<and> synced (advance 4999 (notify_all [(0, ex_thread ''a''), (100, ex_thread ''b''), (900, ex_thread ''c'')] idle))
     = []"
proof -
  have 1: "soon idle = []" and 2: "soonTimer idle = None"
    by (simp_all add: idle_def)
  have 3: "\<forall>n\<in>set [(100, ex_thread ''b''), (900, ex_thread ''c'')]. fst n < (0::nat) + 5000"
    by simp
  have 4: "(0::nat) + 5000 \<le> 5000"
    by simp
  have 5: "\<forall>n\<in>set [(100::nat, ex_thread ''b''), (900, ex_thread ''c'')].
             thread_id (snd n) = thread_id (ex_thread ''a'')"
    by (simp add: ex_thread_def)
  note r = debounce_coalescing [OF 1 2 3 4 refl, where th = "ex_thread ''a''" and Te = 4999
      and i = "''t1''" and Tn = 6000 and thn = "ex_thread ''d''"]
  note same = r [THEN conjunct2, THEN conjunct2, THEN conjunct2, THEN conjunct2, THEN conjunct2,
    THEN conjunct1, THEN mp, OF 5]
  note early = r [THEN conjunct2, THEN conjunct2, THEN conjunct1, THEN mp]
  note before = r [THEN conjunct1]
  have "synced (advance 5000
      (notify_all [(0, ex_thread ''a''), (100, ex_thread ''b''), (900, ex_thread ''c'')] idle))
     = [ex_thread ''c'']"
    using same by (simp add: idle_def)
  moreover have "synced (advance 4999
      (notify_all [(0, ex_thread ''a''), (100, ex_thread ''b''), (900, ex_thread ''c'')] idle))
     = []"
    using early before by (simp add: idle_def)
  ultimately show ?thesis by simp
qed

section \<open>Publishing: what one call does\<close>

lemma upload_file_eq:
  "upload_file e f (urls, w) =
     (record_link e f urls, w\<lparr>requests := requests w @ upload_request e f\<rparr>)"
  by (simp add: upload_file_def record_link_def uploaded_link_def upload_request_def
      split: option.splits)

lemma upload_loop_snoc:
  "upload_loop e (fs @ [f]) st = upload_loop e fs (upload_file e f st)"
  by (subst upload_loop.simps) simp

lemma upload_loop_eq:
  "upload_loop e fs (urls, w) =
     (record_links e fs urls, w\<lparr>requests := requests w @ upload_requests e fs\<rparr>)"
proof (induction fs arbitrary: urls w rule: rev_induct)
  case Nil
  show ?case
    by (subst upload_loop.simps) (simp add: record_links_def upload_requests_def)
next
  case (snoc f fs)
  show ?case
    by (simp add: upload_loop_snoc upload_file_eq snoc.IH record_links_def upload_requests_def)
qed

lemma syncThreadToWeb_eq:
  "syncThreadToWeb e db thread w =
     (if up_to_date db thread then (Inr (), w)
      else case postStaticAsset e (key (published_metadata e db thread)) (snapshot_blob e db thread) of
             None \<Rightarrow>
               (Inl (UploadFailed (key (published_metadata e db thread))),
                w\<lparr>requests := requests w @ upload_requests e (pending_files db thread)
                     @ [(key (published_metadata e db thread), snapshot_blob e db thread, None)]\<rparr>)
           | Some link \<Rightarrow>
               (Inr (),
                w\<lparr>requests := requests w @ upload_requests e (pending_files db thread)
                     @ [(key (published_metadata e db thread), snapshot_blob e db thread, Some link)],
                   queued := queued w @
                     [\<lparr>task_model = thread_id thread, task_value = published_metadata e db thread\<rparr>]\<rparr>))"
proof -
  have urls: "(case fileURLs (init_metadata e thread h (metadata_or_empty thread)) of
                 Some urls \<Rightarrow> urls | None \<Rightarrow> []) = known_urls thread" for h
    by (simp add: init_metadata_def known_urls_def split: option.splits)
  show ?thesis
    unfolding syncThreadToWeb_def Let_def urls
    by (simp add: up_to_date_def published_metadata_def snapshot_blob_def pending_files_def
        upload_loop_eq split: option.splits)
qed

lemma no_snapshot_write_in_uploads: "filter is_snapshot_write (upload_requests e fs) = []"
proof -
  have "filter is_snapshot_write (upload_request e f) = []" for f
    by (simp add: upload_request_def split: option.splits)
  then show ?thesis
    by (induction fs) (simp_all add: upload_requests_def filter_concat)
qed

lemma shown_messages_metadata [simp]:
  "shown_messages db (thread\<lparr>pluginMetadata := m\<rparr>) = shown_messages db thread"
  by (simp add: shown_messages_def)

lemma perform_own_task:
  "perform_tasks [\<lparr>task_model = thread_id thread, task_value = m\<rparr>] thread =
     thread\<lparr>pluginMetadata := Some m\<rparr>"
  by (simp add: perform_tasks_def perform_task_def)

lemma published_hash:
  "combinedVersionHash (published_metadata e db thread) = Some (fingerprint (shown_messages db thread))"
  by (simp add: published_metadata_def init_metadata_def)

lemma ex_fingerprint: "fingerprint (shown_messages ex_db (ex_thread s)) = ''3|12''"
  by (simp add: shown_messages_def findAll_def visible_def ex_db_def ex_thread_def fingerprint_def
      number_toString.simps digit_char_def)

lemma ex_stale: "combinedVersionHash (metadata_or_empty (ex_thread s)) \<noteq> Some h"
  by (simp add: metadata_or_empty_def metadataForPluginId_def ex_thread_def empty_metadata_def)

lemma ex_publish_ok: "fst (syncThreadToWeb (ex_env ex_post) ex_db (ex_thread s) w) = Inr ()"
  by (simp add: syncThreadToWeb_eq ex_env_def ex_post_def split: option.splits)

lemma ex_publish_down:
  "fst (syncThreadToWeb (ex_env ex_post_down) ex_db (ex_thread s) w) = Inl (UploadFailed (Some ''t1-1700''))"
  by (simp add: syncThreadToWeb_eq up_to_date_def ex_stale ex_env_def ex_post_down_def snapshot_blob_def
      published_metadata_def init_metadata_def metadata_or_empty_def metadataForPluginId_def
      ex_thread_def empty_metadata_def number_toString.simps digit_char_def)

text \<open>
  Claim C1. When a call of \<^verbatim>\<open>syncThreadToWeb\<close> publishes (the stored hash differs from the
  fingerprint and the call returns normally), it writes the document once and queues one
  metadata task; once that task is performed on the thread, a second call, with the shown
  messages at the versions they had, finds the hash equal to the fingerprint and returns
  at once: no upload, no write, no task, whatever the collaborators would answer. Over
  both calls the document is written exactly once.
\<close>

theorem publish_twice_writes_once:
  assumes "combinedVersionHash (metadata_or_empty thread) \<noteq> Some (fingerprint (shown_messages db thread))"
    and "syncThreadToWeb e db thread w = (Inr (), w1)"
    and "thread1 = perform_tasks (drop (length (queued w)) (queued w1)) thread"
    and "map version (shown_messages db' thread) = map version (shown_messages db thread)"
  shows "snapshot_writes w1 = snapshot_writes w + 1
       \<and> length (queued w1) = length (queued w) + 1
       \<and> combinedVersionHash (metadata_or_empty thread1) = Some (fingerprint (shown_messages db' thread1))
       \<and> syncThreadToWeb e' db' thread1 w1 = (Inr (), w1)"
proof -
  from assms(1) have "\<not> up_to_date db thread"
    by (simp add: up_to_date_def)
  with assms(2) obtain link where
    w1: "w1 = w\<lparr>requests := requests w @ upload_requests e (pending_files db thread)
                   @ [(key (published_metadata e db thread), snapshot_blob e db thread, Some link)],
                 queued := queued w @
                   [\<lparr>task_model = thread_id thread, task_value = published_metadata e db thread\<rparr>]\<rparr>"
    by (auto simp: syncThreadToWeb_eq split: option.splits)
  have a: "snapshot_writes w1 = snapshot_writes w + 1"
    by (simp add: w1 snapshot_writes_def no_snapshot_write_in_uploads snapshot_blob_def)
  have b: "length (queued w1) = length (queued w) + 1"
    by (simp add: w1)
  have t1: "thread1 = thread\<lparr>pluginMetadata := Some (published_metadata e db thread)\<rparr>"
    using assms(3) by (simp add: w1 perform_own_task)
  have same: "fingerprint (shown_messages db' thread) = fingerprint (shown_messages db thread)"
    using assms(4) by (simp only: fingerprint_eq_iff)
  have c: "combinedVersionHash (metadata_or_empty thread1) = Some (fingerprint (shown_messages db' thread1))"
    by (simp add: t1 metadata_or_empty_def metadataForPluginId_def published_hash same)
  then have "up_to_date db' thread1"
    by (simp add: up_to_date_def)
  then have d: "syncThreadToWeb e' db' thread1 w1 = (Inr (), w1)"
    by (simp add: syncThreadToWeb_eq)
  from a b c d show ?thesis by simp
qed

text \<open>Publishing the sample thread twice.\<close>

theorem publish_twice_writes_once_witness:
  "fst (syncThreadToWeb (ex_env ex_post) ex_db (ex_thread ''Hi'') ex_world) = Inr ()
   \<and> snapshot_writes (snd (syncThreadToWeb (ex_env ex_post) ex_db (ex_thread ''Hi'') ex_world)) = 1
   \<and> syncThreadToWeb (ex_env ex_post) ex_db
       (perform_tasks (queued (snd (syncThreadToWeb (ex_env ex_post) ex_db (ex_thread ''Hi'') ex_world)))
          (ex_thread ''Hi''))
       (snd (syncThreadToWeb (ex_env ex_post) ex_db (ex_thread ''Hi'') ex_world))
     = (Inr (), snd (syncThreadToWeb (ex_env ex_post) ex_db (ex_thread ''Hi'') ex_world))"
proof -
  let ?r = "syncThreadToWeb (ex_env ex_post) ex_db (ex_thread ''Hi'') ex_world"
  have ok: "?r = (Inr (), snd ?r)"
    using ex_publish_ok [of "''Hi''" ex_world] by (simp add: prod_eq_iff)
  note r = publish_twice_writes_once [OF ex_stale ok refl refl, where e' = "ex_env ex_post"]
  from r ex_publish_ok [of "''Hi''" ex_world] show ?thesis
    by (simp add: ex_world_def snapshot_writes_def)
qed

text \<open>
  Claim C3. When the request for the thread's document fails, \<^verbatim>\<open>syncThreadToWeb\<close> rejects
  without queueing a task and without a document written, so the thread's stored metadata
  is what it was: its hash still differs from the fingerprint. A later call on the thread
  makes the whole publish again: the uploads of all files pending before the failed call,
  the document, and the metadata task.
\<close>

theorem failed_snapshot_write_changes_nothing:
  assumes "syncThreadToWeb e db thread w = (Inl err, w1)"
  shows "queued w1 = queued w
       \<and> snapshot_writes w1 = snapshot_writes w
       \<and> perform_tasks (drop (length (queued w)) (queued w1)) thread = thread
       \<and> combinedVersionHash (metadata_or_empty thread) \<noteq> Some (fingerprint (shown_messages db thread))
       \<and> (postStaticAsset e' (key (published_metadata e' db thread)) (snapshot_blob e' db thread) = Some link
            \<longrightarrow> syncThreadToWeb e' db thread w1 =
                  (Inr (),
                   w1\<lparr>requests := requests w1 @ upload_requests e' (pending_files db thread)
                          @ [(key (published_metadata e' db thread), snapshot_blob e' db thread, Some link)],
                      queued := queued w1 @
                        [\<lparr>task_model = thread_id thread,
                          task_value = published_metadata e' db thread\<rparr>]\<rparr>))"
proof -
  from assms have stale: "\<not> up_to_date db thread"
    by (auto simp: syncThreadToWeb_eq split: if_splits)
  with assms have
    w1: "w1 = w\<lparr>requests := requests w @ upload_requests e (pending_files db thread)
                   @ [(key (published_metadata e db thread), snapshot_blob e db thread, None)]\<rparr>"
    by (auto simp: syncThreadToWeb_eq split: option.splits)
  have a: "queued w1 = queued w"
    by (simp add: w1)
  have b: "snapshot_writes w1 = snapshot_writes w"
    by (simp add: w1 snapshot_writes_def no_snapshot_write_in_uploads snapshot_blob_def)
  have c: "perform_tasks (drop (length (queued w)) (queued w1)) thread = thread"
    by (simp add: a perform_tasks_def)
  have d: "postStaticAsset e' (key (published_metadata e' db thread)) (snapshot_blob e' db thread) = Some link
            \<longrightarrow> syncThreadToWeb e' db thread w1 =
                  (Inr (),
                   w1\<lparr>requests := requests w1 @ upload_requests e' (pending_files db thread)
                          @ [(key (published_metadata e' db thread), snapshot_blob e' db thread, Some link)],
                      queued := queued w1 @
                        [\<lparr>task_model = thread_id thread,
                          task_value = published_metadata e' db thread\<rparr>]\<rparr>)"
    using stale by (simp add: syncThreadToWeb_eq)
  from a b c stale d show ?thesis by (simp add: up_to_date_def)
qed

text \<open>The sample thread while JSON requests fail, and the retry when they succeed.\<close>

theorem failed_snapshot_write_changes_nothing_witness:
  "fst (syncThreadToWeb (ex_env ex_post_down) ex_db (ex_thread ''Hi'') ex_world)
     = Inl (UploadFailed (Some ''t1-1700''))
   \<and> queued (snd (syncThreadToWeb (ex_env ex_post_down) ex_db (ex_thread ''Hi'') ex_world)) = []
   \<and> snapshot_writes (snd (syncThreadToWeb (ex_env ex_post_down) ex_db (ex_thread ''Hi'') ex_world)) = 0
   \<and> fst (syncThreadToWeb (ex_env ex_post) ex_db (ex_thread ''Hi'')
            (snd (syncThreadToWeb (ex_env ex_post_down) ex_db (ex_thread ''Hi'') ex_world))) = Inr ()"
proof -
  let ?r = "syncThreadToWeb (ex_env ex_post_down) ex_db (ex_thread ''Hi'') ex_world"
  have down: "?r = (Inl (UploadFailed (Some ''t1-1700'')), snd ?r)"
    using ex_publish_down [of "''Hi''" ex_world] by (simp add: prod_eq_iff)
  note r = failed_snapshot_write_changes_nothing [OF down, where e' = "ex_env ex_post"]
  from r ex_publish_down [of "''Hi''" ex_world] ex_publish_ok [of "''Hi''" "snd ?r"] show ?thesis
    by (simp add: ex_world_def snapshot_writes_def)
qed

section \<open>Histories of calls\<close>

lemma do_call_queued:
  "queued (snd (do_call c thread w)) =
     queued w @ (case call_task c thread of
                   None \<Rightarrow> []
                 | Some m \<Rightarrow> [\<lparr>task_model = thread_id thread, task_value = m\<rparr>])"
proof (cases c)
  case (Publish e db)
  then show ?thesis
    by (simp add: syncThreadToWeb_eq split: option.splits)
next
  case (Unpublish e)
  then show ?thesis
    by (simp add: unsyncThread_def unshared_metadata_def Let_def split: option.splits)
qed

lemma run_calls_Cons:
  "run_calls (c # cs) (thread, w) =
     run_calls cs
       (case call_task c thread of None \<Rightarrow> thread | Some m \<Rightarrow> thread\<lparr>pluginMetadata := Some m\<rparr>,
        snd (do_call c thread w))"
  by (simp add: do_call_queued perform_tasks_def perform_task_def split: option.splits)

lemma run_calls_invariant:
  assumes "\<And>c thread m. c \<in> set cs \<Longrightarrow> P (metadata_or_empty thread) \<Longrightarrow> call_task c thread = Some m \<Longrightarrow> P m"
    and "P (metadata_or_empty thread)"
    and "run_calls cs (thread, w) = (thread', w')"
  shows "P (metadata_or_empty thread') \<and>
         (\<exists>ts. queued w' = queued w @ ts \<and> (\<forall>task\<in>set ts. P (task_value task)))"
  using assms
proof (induction cs arbitrary: thread w)
  case Nil
  then show ?case by simp
next
  case (Cons c cs)
  let ?t1 = "case call_task c thread of None \<Rightarrow> thread | Some m \<Rightarrow> thread\<lparr>pluginMetadata := Some m\<rparr>"
  let ?w1 = "snd (do_call c thread w)"
  let ?ts1 = "case call_task c thread of
                None \<Rightarrow> []
              | Some m \<Rightarrow> [\<lparr>task_model = thread_id thread, task_value = m\<rparr>]"
  have step: "\<And>m. call_task c thread = Some m \<Longrightarrow> P m"
    using Cons.prems(1) [of c thread] Cons.prems(2) by simp
  have P1: "P (metadata_or_empty ?t1)"
    using step Cons.prems(2)
    by (simp add: metadata_or_empty_def metadataForPluginId_def split: option.splits)
  have run: "run_calls cs (?t1, ?w1) = (thread', w')"
    using Cons.prems(3) by (simp only: run_calls_Cons)
  have rest: "P m" if "c' \<in> set cs" "P (metadata_or_empty t)" "call_task c' t = Some m" for c' t m
    using Cons.prems(1) [of c' t m] that by simp
  have "P (metadata_or_empty thread') \<and>
         (\<exists>ts. queued w' = queued ?w1 @ ts \<and> (\<forall>task\<in>set ts. P (task_value task)))"
    using rest P1 run by (rule Cons.IH)
  then obtain ts where ts: "P (metadata_or_empty thread')" "queued w' = queued ?w1 @ ts"
      "\<forall>task\<in>set ts. P (task_value task)"
    by blast
  have "queued w' = queued w @ (?ts1 @ ts)"
    using ts(2) by (simp add: do_call_queued)
  moreover have "\<forall>task\<in>set (?ts1 @ ts). P (task_value task)"
    using ts(3) step by (cases "call_task c thread") simp_all
  ultimately show ?case
    using ts(1) by blast
qed

lemma published_key:
  "key (published_metadata e db thread) =
     (case key (metadata_or_empty thread) of
        Some k \<Rightarrow> if k \<noteq> [] then Some k else Some (thread_id thread @ ''-'' @ number_toString (now e))
      | None \<Rightarrow> Some (thread_id thread @ ''-'' @ number_toString (now e)))"
  by (simp add: published_metadata_def init_metadata_def)



lemma unsync_queues:
  assumes "unsyncThread e thread w = (Inr (), w1)"
  shows "queued w1 = queued w @ [\<lparr>task_model = thread_id thread, task_value = unshared_metadata thread\<rparr>]"
proof -
  obtain link where l: "postStaticAsset e (key (metadata_or_empty thread)) UnsharedJSON = Some link"
    using assms
    by (cases "postStaticAsset e (key (metadata_or_empty thread)) UnsharedJSON")
      (simp_all add: unsyncThread_def Let_def)
  have "queued (snd (unsyncThread e thread w)) =
          queued w @ [\<lparr>task_model = thread_id thread, task_value = unshared_metadata thread\<rparr>]"
    using do_call_queued [of "Unpublish e" thread w] l by simp
  then show ?thesis
    by (simp add: assms)
qed




section \<open>The recorded links\<close>

lemma fold_record_link_other:
  assumes "a \<notin> file_id ` set xs"
  shows "map_of (fold (record_link e) xs urls) a = map_of urls a"
  using assms
proof (induction xs arbitrary: urls)
  case Nil
  show ?case by simp
next
  case (Cons f xs)
  then have "map_of (record_link e f urls) a = map_of urls a"
    by (simp add: record_link_def update_conv split: option.splits)
  with Cons show ?case by simp
qed

lemma record_links_other:
  assumes "a \<notin> file_id ` set fs"
  shows "map_of (record_links e fs urls) a = map_of urls a"
  using assms by (simp add: record_links_def fold_record_link_other)

lemma pending_not_known:
  assumes "map_of (known_urls t) a = Some u" and "u \<noteq> []"
  shows "a \<notin> file_id ` set (pending_files db t)"
  using assms by (auto simp: pending_files_def toUpload_def needs_upload_def)

lemma published_fileURLs:
  "fileURLs (published_metadata e db t) = Some (record_links e (pending_files db t) (known_urls t))"
  by (simp add: published_metadata_def)

lemma publish_keeps_link:
  assumes "map_of (known_urls t) a = Some u" and "u \<noteq> []"
  shows "\<exists>urls'. fileURLs (published_metadata e db t) = Some urls' \<and> map_of urls' a = Some u"
  using assms record_links_other [OF pending_not_known [OF assms], of e db "known_urls t"]
  by (simp add: published_fileURLs)

lemma known_urls_Some:
  "(\<exists>urls. fileURLs (metadata_or_empty t) = Some urls \<and> map_of urls a = Some u)
     \<longleftrightarrow> map_of (known_urls t) a = Some u"
  by (cases "fileURLs (metadata_or_empty t)") (simp_all add: known_urls_def)

text \<open>
  Claim C2, as the code has it. Under publish calls the recorded links only grow: once an
  attachment id is mapped to a non-empty link, every later metadata value that a history
  of \<^verbatim>\<open>syncThreadToWeb\<close> calls queues, and the thread's metadata after it, still maps the id
  to that link, whatever the stored messages are by then. \<^verbatim>\<open>unsyncThread\<close> is different:
  the value it queues has no \<^verbatim>\<open>fileURLs\<close> at all.
\<close>

theorem fileURLs_kept_by_publish:
  assumes "fileURLs (metadata_or_empty thread) = Some urls" and "map_of urls a = Some u" and "u \<noteq> []"
    and "\<forall>c\<in>set cs. is_publish c"
    and "run_calls cs (thread, w) = (thread', w')"
  shows "(\<exists>urls'. fileURLs (metadata_or_empty thread') = Some urls' \<and> map_of urls' a = Some u)
       \<and> (\<exists>ts. queued w' = queued w @ ts
              \<and> (\<forall>task\<in>set ts. \<exists>urls'. fileURLs (task_value task) = Some urls' \<and> map_of urls' a = Some u))
       \<and> (unsyncThread e t w = (Inr (), w1) \<longrightarrow> fileURLs (task_value (last (queued w1))) = None)"
proof -
  let ?P = "\<lambda>m. \<exists>urls'. fileURLs m = Some urls' \<and> map_of urls' a = Some u"
  have step: "?P m" if "c \<in> set cs" "?P (metadata_or_empty t)" "call_task c t = Some m" for c t m
  proof -
    from that(1) assms(4) have "is_publish c"
      by blast
    then obtain e db where c: "c = Publish e db"
      by (cases c) simp_all
    with that(3) have m: "m = published_metadata e db t"
      by (simp split: if_splits option.splits)
    from that(2) have "map_of (known_urls t) a = Some u"
      by (simp only: known_urls_Some)
    then show ?thesis
      unfolding m using assms(3) by (rule publish_keeps_link)
  qed
  have start: "?P (metadata_or_empty thread)"
    using assms(1,2) by simp
  have a: "?P (metadata_or_empty thread') \<and>
         (\<exists>ts. queued w' = queued w @ ts \<and> (\<forall>task\<in>set ts. ?P (task_value task)))"
    using step start assms(5) by (rule run_calls_invariant [where P = ?P])
  have b: "unsyncThread e t w = (Inr (), w1) \<longrightarrow> fileURLs (task_value (last (queued w1))) = None"
    by (simp add: unsync_queues unshared_metadata_def)
  from a b show ?thesis by blast
qed

text \<open>
  Publishing the shared sample thread with collaborators that would hand out other links:
  the link of f1 stays.
\<close>

theorem fileURLs_kept_by_publish_witness:
  "map_of (known_urls (fst (run_calls [Publish (ex_env ex_post2) ex_db] (ex_shared, ex_world)))) ''f1''
     = Some ''https://cdn/f1/doc.pdf''"
proof -
  have 1: "fileURLs (metadata_or_empty ex_shared) = Some [(''f1'', ''https://cdn/f1/doc.pdf'')]"
    by (simp add: ex_shared_def metadata_or_empty_def metadataForPluginId_def)
  have 2: "map_of [(''f1'', ''https://cdn/f1/doc.pdf'')] ''f1'' = Some ''https://cdn/f1/doc.pdf''"
    by simp
  have 3: "''https://cdn/f1/doc.pdf'' \<noteq> []"
    by simp
  have 4: "\<forall>c\<in>set [Publish (ex_env ex_post2) ex_db]. is_publish c"
    by simp
  from fileURLs_kept_by_publish [OF 1 2 3 4 surjective_pairing]
  have "\<exists>urls'. fileURLs (metadata_or_empty
            (fst (run_calls [Publish (ex_env ex_post2) ex_db] (ex_shared, ex_world)))) = Some urls'
          \<and> map_of urls' ''f1'' = Some ''https://cdn/f1/doc.pdf''"
    by (rule conjunct1)
  then show ?thesis
    by (simp only: known_urls_Some)
qed

text \<open>
  The claim as stated fails at \<^verbatim>\<open>unsyncThread\<close>: the shared sample thread maps f1 to a
  link; the value queued by unsharing it has no links, and after sharing it again f1 is
  mapped to a new link.
\<close>

theorem fileURLs_monotone_counterexample:
  "map_of (known_urls ex_shared) ''f1'' = Some ''https://cdn/f1/doc.pdf''
   \<and> fst (unsyncThread (ex_env ex_post) ex_shared ex_world) = Inr ()
   \<and> fileURLs (task_value (last (queued (snd (unsyncThread (ex_env ex_post) ex_shared ex_world))))) = None
   \<and> map_of (known_urls (fst (run_calls [Unpublish (ex_env ex_post)] (ex_shared, ex_world)))) ''f1'' = None
   \<and> map_of (known_urls (fst (run_calls [Unpublish (ex_env ex_post), Publish (ex_env ex_post2) ex_db]
                                  (ex_shared, ex_world)))) ''f1''
       = Some ''https://cdn2/f1/doc.pdf''"
proof -
  have u: "unsyncThread (ex_env ex_post) ex_shared ex_world =
             (Inr (), \<lparr>requests = [(Some ''t1-1700'', UnsharedJSON, Some ''https://cdn/t1-1700'')],
                       queued = [\<lparr>task_model = ''t1'',
                                  task_value = \<lparr>shared = Some False, key = Some ''t1-1700'',
                                    combinedVersionHash = None, fileURLs = None\<rparr>\<rparr>]\<rparr>)"
    by (simp add: unsyncThread_def ex_env_def ex_post_def ex_shared_def ex_thread_def ex_world_def
        metadata_or_empty_def metadataForPluginId_def)
  have a: "map_of (known_urls ex_shared) ''f1'' = Some ''https://cdn/f1/doc.pdf''"
    by (simp add: known_urls_def ex_shared_def metadata_or_empty_def metadataForPluginId_def)
  let ?t1 = "ex_shared\<lparr>pluginMetadata := Some \<lparr>shared = Some False, key = Some ''t1-1700'',
                                    combinedVersionHash = None, fileURLs = None\<rparr>\<rparr>"
  have ct0: "call_task (Unpublish (ex_env ex_post)) ex_shared =
               Some \<lparr>shared = Some False, key = Some ''t1-1700'',
                      combinedVersionHash = None, fileURLs = None\<rparr>"
    by (simp add: ex_env_def ex_post_def unshared_metadata_def ex_shared_def
        metadata_or_empty_def metadataForPluginId_def)
  have t1: "fst (run_calls [Unpublish (ex_env ex_post)] (ex_shared, ex_world)) = ?t1"
    by (simp only: run_calls_Cons run_calls.simps ct0 option.case fst_conv)
  have b: "map_of (known_urls ?t1) ''f1'' = None"
    by (simp add: known_urls_def metadata_or_empty_def metadataForPluginId_def)
  have k: "known_urls ?t1 = []"
    by (simp add: known_urls_def metadata_or_empty_def metadataForPluginId_def)
  have sm: "shown_messages ex_db ?t1 =
              [\<lparr>message_id = ''m1'', threadId = ''t1'', version = 3, isHidden = False,
                files = [ex_file ''f1'', ex_file ''f2''], body = ''hello''\<rparr>,
               \<lparr>message_id = ''m2'', threadId = ''t1'', version = 12, isHidden = False,
                files = [ex_file ''f3''], body = ''again''\<rparr>]"
    by (simp add: shown_messages_def findAll_def visible_def ex_db_def ex_shared_def ex_thread_def)
  have p: "pending_files ex_db ?t1 = [ex_file ''f1'', ex_file ''f2'', ex_file ''f3'']"
    unfolding pending_files_def k sm by (simp add: toUpload_def needs_upload_def)
  have r: "record_links (ex_env ex_post2) [ex_file ''f1'', ex_file ''f2'', ex_file ''f3''] [] =
             [(''f3'', ''https://cdn2/f3/doc.pdf''), (''f1'', ''https://cdn2/f1/doc.pdf'')]"
    by (simp add: record_links_def record_link_def uploaded_link_def ex_env_def ex_post2_def ex_file_def)
  have ct: "call_task (Publish (ex_env ex_post2) ex_db) ?t1 = Some (published_metadata (ex_env ex_post2) ex_db ?t1)"
    by (simp add: up_to_date_def metadata_or_empty_def metadataForPluginId_def ex_env_def ex_post2_def)
  have "fst (run_calls [Unpublish (ex_env ex_post), Publish (ex_env ex_post2) ex_db] (ex_shared, ex_world))
          = ?t1\<lparr>pluginMetadata := Some (published_metadata (ex_env ex_post2) ex_db ?t1)\<rparr>"
    by (simp only: run_calls_Cons run_calls.simps ct0 ct option.case fst_conv)
  then have c: "map_of (known_urls (fst (run_calls [Unpublish (ex_env ex_post), Publish (ex_env ex_post2) ex_db]
                                  (ex_shared, ex_world)))) ''f1''
       = Some ''https://cdn2/f1/doc.pdf''"
    by (simp add: known_urls_def metadata_or_empty_def metadataForPluginId_def published_fileURLs p k r)
  from a u t1 b c show ?thesis by simp
qed

section \<open>An empty attachment\<close>

lemma fold_record_link_keys:
  "fst ` set (fold (record_link e) xs urls) =
     fst ` set urls \<union> file_id ` {f \<in> set xs. uploaded_link e f \<noteq> None}"
proof (induction xs arbitrary: urls)
  case Nil
  show ?case by simp
next
  case (Cons f xs)
  have "fst ` set (record_link e f urls) =
          fst ` set urls \<union> (if uploaded_link e f = None then {} else {file_id f})"
    by (cases "uploaded_link e f") (simp_all add: record_link_def dom_update)
  then show ?case
    by (auto simp: Cons.IH)
qed

lemma record_links_keys:
  "fst ` set (record_links e fs urls) =
     fst ` set urls \<union> file_id ` {f \<in> set fs. uploaded_link e f \<noteq> None}"
  by (simp add: record_links_def fold_record_link_keys)

lemma fold_record_link_distinct:
  "distinct (map fst urls) \<Longrightarrow> distinct (map fst (fold (record_link e) xs urls))"
proof (induction xs arbitrary: urls)
  case Nil
  then show ?case by simp
next
  case (Cons f xs)
  then have "distinct (map fst (record_link e f urls))"
    by (cases "uploaded_link e f") (simp_all add: record_link_def distinct_update)
  then show ?case
    by (simp add: Cons.IH)
qed

lemma fold_record_link_found:
  assumes "distinct (map file_id xs)" and "f \<in> set xs" and "uploaded_link e f = Some l"
  shows "map_of (fold (record_link e) xs urls) (file_id f) = Some l"
  using assms
proof (induction xs arbitrary: urls)
  case Nil
  then show ?case by simp
next
  case (Cons x xs)
  show ?case
  proof (cases "x = f")
    case True
    with Cons.prems have "file_id f \<notin> file_id ` set xs"
      by simp
    then have "map_of (fold (record_link e) xs (record_link e f urls)) (file_id f)
                 = map_of (record_link e f urls) (file_id f)"
      by (rule fold_record_link_other)
    moreover have "map_of (record_link e f urls) (file_id f) = Some l"
      using Cons.prems(3) by (simp add: record_link_def update_conv)
    ultimately show ?thesis
      using True by simp
  next
    case False
    with Cons.prems have "distinct (map file_id xs)" "f \<in> set xs"
      by simp_all
    then have "map_of (fold (record_link e) xs (record_link e x urls)) (file_id f) = Some l"
      using Cons.prems(3) by (rule Cons.IH)
    then show ?thesis by simp
  qed
qed

lemma record_links_found:
  assumes "distinct (map file_id fs)" and "f \<in> set fs" and "uploaded_link e f = Some l"
  shows "map_of (record_links e fs urls) (file_id f) = Some l"
  unfolding record_links_def
  using assms by (intro fold_record_link_found) (simp_all add: rev_map [symmetric])

lemma upload_requests_mem:
  assumes "f \<in> set fs" and "readFile e (pathForFile e f) = Some data" and "data \<noteq> []"
  shows "(Some (file_id f @ ''/'' @ displayName f), OctetStream data,
          postStaticAsset e (Some (file_id f @ ''/'' @ displayName f)) (OctetStream data))
           \<in> set (upload_requests e fs)"
proof -
  have "(Some (file_id f @ ''/'' @ displayName f), OctetStream data,
          postStaticAsset e (Some (file_id f @ ''/'' @ displayName f)) (OctetStream data))
           \<in> set (upload_request e f)"
    using assms(2,3) by (simp add: upload_request_def)
  with assms(1) show ?thesis
    by (auto simp: upload_requests_def)
qed

lemma never_shared:
  assumes "pluginMetadata thread = None"
  shows "known_urls thread = []" and "\<not> up_to_date db thread"
    and "pending_files db thread = concat (map files (shown_messages db thread))"
    and "key (published_metadata e db thread) = Some (thread_id thread @ ''-'' @ number_toString (now e))"
proof -
  have m: "metadata_or_empty thread = empty_metadata"
    using assms by (simp add: metadata_or_empty_def metadataForPluginId_def)
  show k: "known_urls thread = []"
    by (simp add: known_urls_def m empty_metadata_def)
  show "\<not> up_to_date db thread"
    by (simp add: up_to_date_def m empty_metadata_def)
  show "pending_files db thread = concat (map files (shown_messages db thread))"
    by (simp add: pending_files_def k toUpload_def needs_upload_def)
  show "key (published_metadata e db thread) = Some (thread_id thread @ ''-'' @ number_toString (now e))"
    by (simp add: published_key m empty_metadata_def)
qed

text \<open>
  Claim C9. A thread that was never shared is published; the attachments of its shown
  messages have distinct ids, one of them reads as zero bytes, every other one reads as
  non-empty bytes and is uploaded successfully, and the request for the document succeeds.
  Then the call returns normally, the document is written (with the links recorded), the
  metadata task is queued, every attachment but the empty one has been uploaded and has
  its link recorded, and the recorded links are exactly those of the other attachments:
  with three attachments, two entries.
\<close>

theorem one_empty_attachment_does_not_block:
  assumes "pluginMetadata thread = None"
    and "concat (map files (shown_messages db thread)) = fs"
    and "distinct (map file_id fs)"
    and "bad \<in> set fs"
    and "readFile e (pathForFile e bad) = Some []"
    and "\<forall>f\<in>set fs. f \<noteq> bad \<longrightarrow>
           (\<exists>data link. data \<noteq> [] \<and> readFile e (pathForFile e f) = Some data
              \<and> postStaticAsset e (Some (file_id f @ ''/'' @ displayName f)) (OctetStream data) = Some link)"
    and "\<forall>k doc. postStaticAsset e k (SnapshotJSON doc) \<noteq> None"
  shows "\<exists>w1 m urls link.
           syncThreadToWeb e db thread w = (Inr (), w1)
         \<and> queued w1 = queued w @ [\<lparr>task_model = thread_id thread, task_value = m\<rparr>]
         \<and> shared m = Some True \<and> fileURLs m = Some urls
         \<and> fst ` set urls = file_id ` (set fs - {bad})
         \<and> length urls = length fs - 1
         \<and> last (requests w1) =
               (Some (thread_id thread @ ''-'' @ number_toString (now e)),
                SnapshotJSON (build_snapshot e thread urls (shown_messages db thread)), Some link)
         \<and> snapshot_writes w1 = snapshot_writes w + 1
         \<and> (\<forall>f\<in>set fs. f \<noteq> bad \<longrightarrow>
               (\<exists>data l. (Some (file_id f @ ''/'' @ displayName f), OctetStream data, Some l)
                            \<in> set (requests w1)
                  \<and> map_of urls (file_id f) = Some l))"
proof -
  note fresh = never_shared [OF assms(1)]
  let ?urls = "record_links e fs []"
  let ?m = "published_metadata e db thread"
  let ?k = "Some (thread_id thread @ ''-'' @ number_toString (now e))"
  let ?doc = "build_snapshot e thread ?urls (shown_messages db thread)"
  have pending: "pending_files db thread = fs"
    using fresh(3) assms(2) by simp
  have blob: "snapshot_blob e db thread = SnapshotJSON ?doc"
    by (simp add: snapshot_blob_def pending fresh(1))
  have key: "key ?m = ?k"
    by (rule fresh(4))
  have "postStaticAsset e ?k (SnapshotJSON ?doc) \<noteq> None"
    using assms(7) by blast
  then obtain link where link: "postStaticAsset e ?k (SnapshotJSON ?doc) = Some link"
    by (cases "postStaticAsset e ?k (SnapshotJSON ?doc)") simp_all
  let ?w1 = "w\<lparr>requests := requests w @ upload_requests e fs @ [(?k, SnapshotJSON ?doc, Some link)],
               queued := queued w @ [\<lparr>task_model = thread_id thread, task_value = ?m\<rparr>]\<rparr>"
  have run: "syncThreadToWeb e db thread w = (Inr (), ?w1)"
    by (simp only: syncThreadToWeb_eq fresh(2) if_False key blob link option.case pending)
  have m1: "shared ?m = Some True"
    by (simp add: published_metadata_def init_metadata_def)
  have m2: "fileURLs ?m = Some ?urls"
    by (simp add: published_fileURLs pending fresh(1))
  have bad: "uploaded_link e bad = None"
    using assms(5) by (simp add: uploaded_link_def)
  have good: "\<exists>data l. data \<noteq> [] \<and> readFile e (pathForFile e f) = Some data
                \<and> postStaticAsset e (Some (file_id f @ ''/'' @ displayName f)) (OctetStream data) = Some l
                \<and> uploaded_link e f = Some l"
    if "f \<in> set fs" "f \<noteq> bad" for f
  proof -
    from assms(6) that obtain data l where
      "data \<noteq> []" "readFile e (pathForFile e f) = Some data"
      "postStaticAsset e (Some (file_id f @ ''/'' @ displayName f)) (OctetStream data) = Some l"
      by blast
    then show ?thesis
      by (simp add: uploaded_link_def)
  qed
  have "{f \<in> set fs. uploaded_link e f \<noteq> None} = set fs - {bad}"
    using bad good by auto
  then have keys: "fst ` set ?urls = file_id ` (set fs - {bad})"
    by (simp add: record_links_keys)
  have inj: "inj_on file_id (set fs)" and dfs: "distinct fs"
    using assms(3) by (simp_all add: distinct_map)
  have "distinct (map fst ?urls)"
    unfolding record_links_def by (rule fold_record_link_distinct) simp
  then have "length ?urls = card (fst ` set ?urls)"
    using distinct_card [of "map fst ?urls"] by simp
  also have "\<dots> = card (set fs - {bad})"
    unfolding keys using inj by (intro card_image) (rule inj_on_subset, auto)
  also have "\<dots> = length fs - 1"
    using assms(4) dfs by (simp add: distinct_card)
  finally have len: "length ?urls = length fs - 1" .
  have last: "last (requests ?w1) = (?k, SnapshotJSON ?doc, Some link)"
    by simp
  have writes: "snapshot_writes ?w1 = snapshot_writes w + 1"
    by (simp add: snapshot_writes_def no_snapshot_write_in_uploads)
  have ups: "\<forall>f\<in>set fs. f \<noteq> bad \<longrightarrow>
               (\<exists>data l. (Some (file_id f @ ''/'' @ displayName f), OctetStream data, Some l)
                            \<in> set (requests ?w1)
                  \<and> map_of ?urls (file_id f) = Some l)"
  proof (intro ballI impI)
    fix f
    assume f: "f \<in> set fs" "f \<noteq> bad"
    from good [OF f] obtain data l where d:
      "data \<noteq> []" "readFile e (pathForFile e f) = Some data"
      "postStaticAsset e (Some (file_id f @ ''/'' @ displayName f)) (OctetStream data) = Some l"
      "uploaded_link e f = Some l"
      by blast
    have "(Some (file_id f @ ''/'' @ displayName f), OctetStream data, Some l) \<in> set (upload_requests e fs)"
      using upload_requests_mem [OF f(1) d(2) d(1)] d(3) by simp
    then have "(Some (file_id f @ ''/'' @ displayName f), OctetStream data, Some l) \<in> set (requests ?w1)"
      by simp
    moreover have "map_of ?urls (file_id f) = Some l"
      using assms(3) f(1) d(4) by (rule record_links_found)
    ultimately show "\<exists>data l. (Some (file_id f @ ''/'' @ displayName f), OctetStream data, Some l)
                            \<in> set (requests ?w1)
                  \<and> map_of ?urls (file_id f) = Some l"
      by blast
  qed
  from run m1 m2 keys len last writes ups show ?thesis
    by (intro exI [of _ ?w1] exI [of _ ?m] exI [of _ ?urls] exI [of _ link]) simp
qed

text \<open>
  The sample thread: three attachments, f2 empty. The links recorded are those of f1 and f3.
\<close>

theorem one_empty_attachment_does_not_block_witness:
  "fst (syncThreadToWeb (ex_env ex_post) ex_db (ex_thread ''Hi'') ex_world) = Inr ()
   \<and> snapshot_writes (snd (syncThreadToWeb (ex_env ex_post) ex_db (ex_thread ''Hi'') ex_world)) = 1
   \<and> fst ` set (known_urls
        (perform_tasks (queued (snd (syncThreadToWeb (ex_env ex_post) ex_db (ex_thread ''Hi'') ex_world)))
           (ex_thread ''Hi''))) = {''f1'', ''f3''}"
proof -
  let ?fs = "[ex_file ''f1'', ex_file ''f2'', ex_file ''f3'']"
  have 1: "pluginMetadata (ex_thread ''Hi'') = None"
    by (simp add: ex_thread_def)
  have 2: "concat (map files (shown_messages ex_db (ex_thread ''Hi''))) = ?fs"
    by (simp add: shown_messages_def findAll_def visible_def ex_db_def ex_thread_def)
  have 3: "distinct (map file_id ?fs)"
    by (simp add: ex_file_def)
  have 4: "ex_file ''f2'' \<in> set ?fs"
    by simp
  have 5: "readFile (ex_env ex_post) (pathForFile (ex_env ex_post) (ex_file ''f2'')) = Some []"
    by (simp add: ex_env_def ex_file_def)
  have 6: "\<forall>f\<in>set ?fs. f \<noteq> ex_file ''f2'' \<longrightarrow>
           (\<exists>data link. data \<noteq> [] \<and> readFile (ex_env ex_post) (pathForFile (ex_env ex_post) f) = Some data
              \<and> postStaticAsset (ex_env ex_post) (Some (file_id f @ ''/'' @ displayName f)) (OctetStream data)
                  = Some link)"
    by (simp add: ex_env_def ex_file_def ex_post_def)
  have 7: "\<forall>k doc. postStaticAsset (ex_env ex_post) k (SnapshotJSON doc) \<noteq> None"
    by (simp add: ex_env_def ex_post_def)
  from one_empty_attachment_does_not_block [OF 1 2 3 4 5 6 7, of ex_world]
  obtain w1 m urls where r:
    "syncThreadToWeb (ex_env ex_post) ex_db (ex_thread ''Hi'') ex_world = (Inr (), w1)"
    "queued w1 = queued ex_world @ [\<lparr>task_model = thread_id (ex_thread ''Hi''), task_value = m\<rparr>]"
    "fileURLs m = Some urls"
    "fst ` set urls = file_id ` (set ?fs - {ex_file ''f2''})"
    "snapshot_writes w1 = snapshot_writes ex_world + 1"
    by blast
  have d: "set ?fs - {ex_file ''f2''} = {ex_file ''f1'', ex_file ''f3''}"
    by (auto simp: ex_file_def)
  have "file_id ` (set ?fs - {ex_file ''f2''}) = {''f1'', ''f3''}"
    unfolding d by (simp add: ex_file_def)
  with r show ?thesis
    by (simp add: ex_world_def snapshot_writes_def perform_tasks_def perform_task_def known_urls_def
        metadata_or_empty_def metadataForPluginId_def)
qed

end
